theory Spec2Isabelle
  imports Complex_Main "HOL-Library.Monad_Syntax"
begin

section \<open>SparklineCanvas: model builder, paint routine, animation driver, hover projection\<close>

text \<open>
  A shallow embedding of \<^verbatim>\<open>src/components/chapters/timeline/SparklineCanvas.tsx\<close>.

  Numbers. A JavaScript number is a finite double, \<^verbatim>\<open>NaN\<close>, \<^verbatim>\<open>Infinity\<close> or
  \<^verbatim>\<open>-Infinity\<close>. Finite doubles are idealised as reals (arithmetic does not round, and
  there is no signed zero); reading a number from a digit string does round, since a long
  digit run reads as \<^verbatim>\<open>Infinity\<close> (\<open>number_of_nat\<close> below). The three non-finite values
  are kept apart, because the component tests for them
  (\<^verbatim>\<open>Number.isFinite\<close>, \<^verbatim>\<open>typeof x === 'number'\<close>). A prop of type
  \<^verbatim>\<open>number | undefined\<close> is a \<open>jsnum option\<close>, \<open>None\<close> being \<^verbatim>\<open>undefined\<close>.
  The tests \<^verbatim>\<open>typeof x === 'number'\<close> and \<^verbatim>\<open>Number.isFinite(x)\<close> are case distinctions
  on these types. Where the code has already excluded the non-finite values, or the host
  only supplies finite ones (sizes, time stamps, pointer coordinates, text widths), the
  quantity is a \<open>real\<close>.

  Strings are \<open>string\<close>: lists of 8-bit characters, so the Latin-1 part of a JavaScript
  string.
\<close>

subsection \<open>JavaScript numbers\<close>

datatype jsnum = Fin real | NaN | PosInf | NegInf

text \<open>\<^verbatim>\<open>Math.min(a, b)\<close> and \<^verbatim>\<open>Math.max(a, b)\<close>: \<^verbatim>\<open>NaN\<close> if an argument is \<^verbatim>\<open>NaN\<close>.\<close>

fun js_min :: "jsnum \<Rightarrow> jsnum \<Rightarrow> jsnum" where
  "js_min NaN _ = NaN"
| "js_min _ NaN = NaN"
| "js_min NegInf _ = NegInf"
| "js_min _ NegInf = NegInf"
| "js_min PosInf b = b"
| "js_min a PosInf = a"
| "js_min (Fin a) (Fin b) = Fin (min a b)"

fun js_max :: "jsnum \<Rightarrow> jsnum \<Rightarrow> jsnum" where
  "js_max NaN _ = NaN"
| "js_max _ NaN = NaN"
| "js_max PosInf _ = PosInf"
| "js_max _ PosInf = PosInf"
| "js_max NegInf b = b"
| "js_max a NegInf = a"
| "js_max (Fin a) (Fin b) = Fin (max a b)"

text \<open>The sign of an infinity times a finite factor or another infinity.\<close>

definition js_inf :: "bool \<Rightarrow> jsnum" where
  "js_inf positive = (if positive then PosInf else NegInf)"

text \<open>\<^verbatim>\<open>a * b\<close>: \<^verbatim>\<open>NaN\<close> propagates, and infinity times zero is \<^verbatim>\<open>NaN\<close>.\<close>

fun js_mul :: "jsnum \<Rightarrow> jsnum \<Rightarrow> jsnum" where
  "js_mul NaN _ = NaN"
| "js_mul _ NaN = NaN"
| "js_mul (Fin a) (Fin b) = Fin (a * b)"
| "js_mul (Fin a) PosInf = (if a = 0 then NaN else js_inf (0 < a))"
| "js_mul (Fin a) NegInf = (if a = 0 then NaN else js_inf (a < 0))"
| "js_mul PosInf (Fin b) = (if b = 0 then NaN else js_inf (0 < b))"
| "js_mul NegInf (Fin b) = (if b = 0 then NaN else js_inf (b < 0))"
| "js_mul PosInf PosInf = PosInf"
| "js_mul PosInf NegInf = NegInf"
| "js_mul NegInf PosInf = NegInf"
| "js_mul NegInf NegInf = PosInf"

text \<open>\<^verbatim>\<open>Math.floor\<close> and \<^verbatim>\<open>Math.round\<close> (half up) on a finite number.\<close>

definition js_floor :: "real \<Rightarrow> real" where
  "js_floor v = of_int \<lfloor>v\<rfloor>"

definition js_round :: "real \<Rightarrow> int" where
  "js_round v = \<lfloor>v + 1 / 2\<rfloor>"

subsection \<open>Strings: decimal output, character classes, \<^verbatim>\<open>parseInt\<close>\<close>

definition digit_char :: "nat \<Rightarrow> char" where
  "digit_char d = ''0123456789'' ! d"

text \<open>The decimal numeral of a natural number, as a template literal prints an integer.\<close>

fun show_nat :: "nat \<Rightarrow> string" where
  "show_nat n = (if n < 10 then [digit_char n] else show_nat (n div 10) @ [digit_char (n mod 10)])"

declare show_nat.simps [simp del]

definition show_int :: "int \<Rightarrow> string" where
  "show_int i = (if i < 0 then CHR ''-'' # show_nat (nat (- i)) else show_nat (nat i))"

text \<open>The regular-expression class \<^verbatim>\<open>\d\<close>.\<close>

definition is_digit :: "char \<Rightarrow> bool" where
  "is_digit c = (c \<in> set ''0123456789'')"

text \<open>
  The class \<^verbatim>\<open>\s\<close> on 8-bit characters: TAB, LF, VT, FF, CR, space and the no-break
  space U+00A0.
\<close>

definition is_space :: "char \<Rightarrow> bool" where
  "is_space c = ((of_char c :: nat) \<in> set [9, 10, 11, 12, 13, 32, 160])"

definition digit_val :: "char \<Rightarrow> nat" where
  "digit_val c = of_char c - 48"

definition dec_value :: "string \<Rightarrow> nat" where
  "dec_value ds = foldl (\<lambda>a c. 10 * a + digit_val c) 0 ds"

text \<open>The number of binary digits of a natural number.\<close>

fun bit_length :: "nat \<Rightarrow> nat" where
  "bit_length n = (if n = 0 then 0 else Suc (bit_length (n div 2)))"

declare bit_length.simps [simp del]

text \<open>
  Rounding a natural number to a significand of 53 bits, to the nearest such number, a
  tie going to the even significand. Below \<open>2 ^ 53\<close> nothing is rounded.
\<close>

definition round53 :: "nat \<Rightarrow> nat" where
  "round53 n =
     (if n < 2 ^ 53 then n
      else (let e = bit_length n - 53;
                q = n div 2 ^ e;
                r = n mod 2 ^ e;
                half = 2 ^ (e - 1);
                q' = (if half < r \<or> (r = half \<and> odd q) then q + 1 else q)
            in q' * 2 ^ e))"

text \<open>
  The Number value of a natural number: the nearest double, and \<^verbatim>\<open>Infinity\<close> when the
  rounded value reaches \<open>2 ^ 1024\<close>.
\<close>

definition number_of_nat :: "nat \<Rightarrow> jsnum" where
  "number_of_nat n = (if 2 ^ 1024 \<le> round53 n then PosInf else Fin (real (round53 n)))"

text \<open>Unary minus.\<close>

fun js_neg :: "jsnum \<Rightarrow> jsnum" where
  "js_neg (Fin a) = Fin (- a)"
| "js_neg NaN = NaN"
| "js_neg PosInf = NegInf"
| "js_neg NegInf = PosInf"

text \<open>
  \<^verbatim>\<open>parseInt(s, 10)\<close>: leading white space is skipped, an optional sign is read, then the
  longest run of decimal digits; with no digit the result is \<^verbatim>\<open>NaN\<close>, otherwise the
  Number value of the integer that the digits denote, negated after a minus sign. All the
  digits are read (the language standard also lets an engine read the digits after the
  twentieth significant one as zeros).
\<close>

definition parseInt10 :: "string \<Rightarrow> jsnum" where
  "parseInt10 s =
     (let t = dropWhile is_space s;
          neg = (case t of c # _ \<Rightarrow> c = CHR ''-'' | [] \<Rightarrow> False);
          u = (case t of c # r \<Rightarrow> if c = CHR ''-'' \<or> c = CHR ''+'' then r else t | [] \<Rightarrow> t);
          ds = takeWhile is_digit u
      in if ds = [] then NaN
         else if neg then js_neg (number_of_nat (dec_value ds))
         else number_of_nat (dec_value ds))"

subsection \<open>The two regular expressions of \<^verbatim>\<open>buildModel\<close>\<close>

text \<open>
  A regular expression is embedded as a matcher anchored at the head of its argument;
  \<^verbatim>\<open>test\<close> and \<^verbatim>\<open>exec\<close> try the anchored matcher at every start position from the
  left. The matchers take each quantified class greedily and never back up. For these two
  expressions that is what a backtracking engine finds: every starred or plussed class
  (\<^verbatim>\<open>\s\<close>, \<^verbatim>\<open>\d\<close>) is disjoint from what may follow it, so giving back a character of
  a run leaves a character the continuation cannot take. The lemmas
  \<open>redSig_test_contains\<close>, \<open>rgba_at_iff\<close> and \<open>rgba_exec_leftmost\<close> prove it against the
  languages of the patterns.
\<close>

text \<open>A literal piece of a pattern: the rest of the input after it, if it is there.\<close>

definition lit :: "string \<Rightarrow> string \<Rightarrow> string option" where
  "lit p s = (if take (length p) s = p then Some (drop (length p) s) else None)"

text \<open>\<^verbatim>\<open>/239,\s*68,\s*68/\<close> anchored at the head of the input.\<close>

definition redSig_at :: "string \<Rightarrow> bool" where
  "redSig_at s =
     (case lit ''239,'' s of None \<Rightarrow> False
      | Some s1 \<Rightarrow>
        (case lit ''68,'' (dropWhile is_space s1) of None \<Rightarrow> False
         | Some s2 \<Rightarrow> lit ''68'' (dropWhile is_space s2) \<noteq> None))"

text \<open>\<^verbatim>\<open>/239,\s*68,\s*68/.test(color)\<close>: a match at some start position.\<close>

fun redSig_test :: "string \<Rightarrow> bool" where
  "redSig_test [] = redSig_at []"
| "redSig_test (c # cs) = (redSig_at (c # cs) \<or> redSig_test cs)"

declare redSig_test.simps [simp del]

text \<open>A capture group \<^verbatim>\<open>(\s*\d+\s*)\<close>: the captured text and the rest of the input.\<close>

definition channel :: "string \<Rightarrow> (string \<times> string) option" where
  "channel s =
     (let w1 = takeWhile is_space s; s1 = dropWhile is_space s;
          ds = takeWhile is_digit s1; s2 = dropWhile is_digit s1;
          w2 = takeWhile is_space s2; s3 = dropWhile is_space s2
      in if ds = [] then None else Some (w1 @ ds @ w2, s3))"

text \<open>
  The fourth group \<^verbatim>\<open>(\s*\d*\.?\d+\s*)\<close>, whose text is never read: digits, or optional
  digits, a dot and digits. Only the rest of the input is returned. After a run of digits
  and a dot, digits must follow: the shorter match that stops before the dot leaves the
  dot where the closing parenthesis has to be.
\<close>

definition alphaGroup :: "string \<Rightarrow> string option" where
  "alphaGroup s =
     (let s1 = dropWhile is_space s;
          d1 = takeWhile is_digit s1; s2 = dropWhile is_digit s1
      in case s2 of
           c # s3 \<Rightarrow>
             if c = CHR ''.'' then
               (if takeWhile is_digit s3 = [] then None
                else Some (dropWhile is_space (dropWhile is_digit s3)))
             else if d1 = [] then None else Some (dropWhile is_space s2)
         | [] \<Rightarrow> if d1 = [] then None else Some (dropWhile is_space s2))"

text \<open>
  \<^verbatim>\<open>/rgba?\((\s*\d+\s*),(\s*\d+\s*),(\s*\d+\s*)(?:,(\s*\d*\.?\d+\s*))?\)/\<close> anchored at
  the head of the input; the result is the text of groups 1, 2 and 3.
\<close>

definition rgba_at :: "string \<Rightarrow> (string \<times> string \<times> string) option" where
  "rgba_at s =
     do {
       s1 \<leftarrow> lit ''rgb'' s;
       s2 \<leftarrow> lit ''('' (case s1 of c # r \<Rightarrow> if c = CHR ''a'' then r else s1 | [] \<Rightarrow> s1);
       (g1, s3) \<leftarrow> channel s2;
       s4 \<leftarrow> lit '','' s3;
       (g2, s5) \<leftarrow> channel s4;
       s6 \<leftarrow> lit '','' s5;
       (g3, s7) \<leftarrow> channel s6;
       s8 \<leftarrow> (case lit '','' s7 of Some a \<Rightarrow> alphaGroup a | None \<Rightarrow> Some s7);
       _ \<leftarrow> lit '')'' s8;
       Some (g1, g2, g3)
     }"

text \<open>\<^verbatim>\<open>regex.exec(stroke)\<close>: the groups of the leftmost match, or \<^verbatim>\<open>null\<close>.\<close>

fun rgba_exec :: "string \<Rightarrow> (string \<times> string \<times> string) option" where
  "rgba_exec [] = rgba_at []"
| "rgba_exec (c # cs) =
     (case rgba_at (c # cs) of Some m \<Rightarrow> Some m | None \<Rightarrow> rgba_exec cs)"

declare rgba_exec.simps [simp del]

subsection \<open>The languages of the two patterns\<close>

text \<open>
  What the pieces of the rgba pattern denote as sets of strings, for comparison with the
  matchers: a group \<^verbatim>\<open>\s*\d+\s*\<close>, the fourth group \<^verbatim>\<open>\s*\d*\.?\d+\s*\<close>, and a
  string that begins with a match of the whole pattern with the given texts of groups 1
  to 3, followed by \<open>post\<close>.
\<close>

definition inGroup :: "string \<Rightarrow> bool" where
  "inGroup g \<longleftrightarrow>
     (\<exists>w1 ds w2. g = w1 @ ds @ w2 \<and> list_all is_space w1 \<and> list_all is_digit ds \<and> ds \<noteq> []
        \<and> list_all is_space w2)"

definition inAlpha :: "string \<Rightarrow> bool" where
  "inAlpha a \<longleftrightarrow>
     (\<exists>w1 d1 dot d2 w2. a = w1 @ d1 @ dot @ d2 @ w2 \<and> list_all is_space w1
        \<and> list_all is_digit d1 \<and> (dot = [] \<or> dot = ''.'') \<and> list_all is_digit d2 \<and> d2 \<noteq> []
        \<and> list_all is_space w2)"

definition inRgba :: "string \<Rightarrow> string \<Rightarrow> string \<Rightarrow> string \<Rightarrow> string \<Rightarrow> bool" where
  "inRgba s g1 g2 g3 post \<longleftrightarrow>
     (\<exists>opt tail. s = ''rgb'' @ opt @ ''('' @ g1 @ '','' @ g2 @ '','' @ g3 @ tail @ '')'' @ post
        \<and> (opt = [] \<or> opt = ''a'') \<and> inGroup g1 \<and> inGroup g2 \<and> inGroup g3
        \<and> (tail = [] \<or> (\<exists>a. tail = '','' @ a \<and> inAlpha a)))"

subsection \<open>Props and Model\<close>

text \<open>
  The props of the component (lines 5 to 21). An absent prop is \<open>None\<close>. The field
  \<open>compactP\<close> is the prop \<^verbatim>\<open>compact\<close>; \<open>lineWidthOverride\<close>, \<open>glowRadiusOverride\<close> and
  \<open>areaAlphaOverride\<close> are the names the component destructures the three knobs to.
\<close>

record Props =
  percent :: "jsnum option"
  xLabels :: "(string \<times> string) option"
  ariaLabel :: "string option"
  colorP :: "string option"
  compactP :: "bool option"
  durationMs :: "jsnum option"
  lineWidthOverride :: "jsnum option"
  glowRadiusOverride :: "jsnum option"
  areaAlphaOverride :: "jsnum option"

text \<open>The destructuring default \<^verbatim>\<open>color = 'rgba(16,185,129,0.8)'\<close> (line 24).\<close>

definition color :: "Props \<Rightarrow> string" where
  "color props = (case colorP props of None \<Rightarrow> ''rgba(16,185,129,0.8)'' | Some c \<Rightarrow> c)"

text \<open>The truthiness of \<^verbatim>\<open>compact\<close>: \<^verbatim>\<open>undefined\<close> and \<^verbatim>\<open>false\<close> are falsy.\<close>

definition compact_on :: "Props \<Rightarrow> bool" where
  "compact_on props = (case compactP props of None \<Rightarrow> False | Some b \<Rightarrow> b)"

text \<open>
  The template literal \<^verbatim>\<open>`rgba(${r},${g},${b},${a})`\<close> of the area colours, kept as its
  four interpolated numbers: printing a double is outside this model.
\<close>

datatype rgba_tpl = RgbaTpl jsnum jsnum jsnum jsnum

record Model =
  width :: real
  height :: real
  padTop :: real
  padBottom :: real
  padX :: real
  strokeColor :: string
  tipGlowColor :: string
  label :: string
  labelWidth :: real
  startX :: real
  startY :: real
  endX :: real
  yFinal :: real
  areaStartColor :: rgba_tpl
  areaEndColor :: rgba_tpl
  lineWidth :: jsnum
  tipRadius :: real
  glowRadius :: jsnum
  duration :: real

subsection \<open>\<^verbatim>\<open>buildModel\<close> (lines 69 to 114)\<close>

text \<open>
  The drawing context is used for \<^verbatim>\<open>measureText\<close> only, between \<^verbatim>\<open>save\<close> and
  \<^verbatim>\<open>restore\<close>; it enters as the function \<open>measureText\<close> giving the width of a text in the
  12px font. The sizes \<open>cssW\<close> and \<open>cssH\<close> are finite: \<^verbatim>\<open>renderOnce\<close> passes floored
  lengths of the bounding rectangle.
\<close>

definition buildModel :: "Props \<Rightarrow> (string \<Rightarrow> real) \<Rightarrow> real \<Rightarrow> real \<Rightarrow> Model" where
  "buildModel props measureText cssW cssH =
     (let pRaw = (case percent props of
                    Some v \<Rightarrow> (case v of Fin r \<Rightarrow> r | _ \<Rightarrow> 100)
                  | None \<Rightarrow> 100);
          p = max 0 (min 1000 pRaw);
          stroke = color props;
          glow = (if redSig_test (color props) then ''rgba(239,68,68,0.9)''
                  else ''rgba(16,185,129,0.9)'');
          padTop' = (if compact_on props then 6 else 10);
          padBottom' = (if compact_on props then 14 else 18);
          padX' = (if compact_on props then 8 else 10);
          label' = (if p \<ge> 0 then ''+'' else '''') @ show_int (js_round p) @ ''%'';
          labelWidth' = measureText label';
          rightGutterBase = (if compact_on props then 30 else 36);
          rightGutter = max rightGutterBase (labelWidth' + 18);
          leftAxis = (if compact_on props then 16 else 20) + 8;
          startX' = padX' + leftAxis;
          endX' = max startX' (cssW - padX' - rightGutter);
          Hdraw = max 1 (cssH - padTop' - padBottom');
          normFinal = max 0 (min 1 (p / 1000));
          startY' = cssH - padBottom' - 1;
          yFinal' = padTop' + (1 - normFinal) * Hdraw;
          rgbaMatch = rgba_exec stroke;
          baseR = (case rgbaMatch of Some (g1, g2, g3) \<Rightarrow> parseInt10 g1 | None \<Rightarrow> Fin 16);
          baseG = (case rgbaMatch of Some (g1, g2, g3) \<Rightarrow> parseInt10 g2 | None \<Rightarrow> Fin 185);
          baseB = (case rgbaMatch of Some (g1, g2, g3) \<Rightarrow> parseInt10 g3 | None \<Rightarrow> Fin 129);
          areaStartAlpha = (case areaAlphaOverride props of
                              Some v \<Rightarrow> js_max (Fin 0) (js_min (Fin 1) v)
                            | None \<Rightarrow> Fin (if compact_on props then 8 / 100 else 12 / 100));
          areaStartColor' = RgbaTpl baseR baseG baseB areaStartAlpha;
          areaEndColor' = RgbaTpl baseR baseG baseB (Fin 0);
          lineWidth' = (case lineWidthOverride props of
                          Some v \<Rightarrow> v
                        | None \<Rightarrow> Fin (if compact_on props then 12 / 10 else 14 / 10));
          tipRadius' = (if compact_on props then 19 / 10 else 24 / 10);
          glowRadius' = (case glowRadiusOverride props of
                           Some v \<Rightarrow> v
                         | None \<Rightarrow> Fin (if compact_on props then 8 else 10));
          duration' = (case durationMs props of
                         Some v \<Rightarrow> (case v of
                                      Fin d \<Rightarrow> max 200 (min 4000 (js_floor d))
                                    | _ \<Rightarrow> 980)
                       | None \<Rightarrow> 980)
      in \<lparr> width = cssW, height = cssH, padTop = padTop', padBottom = padBottom',
           padX = padX', strokeColor = stroke, tipGlowColor = glow, label = label',
           labelWidth = labelWidth', startX = startX', startY = startY', endX = endX',
           yFinal = yFinal', areaStartColor = areaStartColor', areaEndColor = areaEndColor',
           lineWidth = lineWidth', tipRadius = tipRadius', glowRadius = glowRadius',
           duration = duration' \<rparr>)"

subsection \<open>\<^verbatim>\<open>draw\<close> (lines 116 to 179)\<close>

text \<open>
  The paint routine only writes to the drawing context. Its result here is the list of
  the assignments and calls it makes on the context, in order.
\<close>

datatype canvas_op =
    SetTransform real real real real real real
  | Scale real real
  | ClearRect real real real real
  | StrokeStyle string
  | LineWidth jsnum
  | LineCap string
  | SetLineDash "real list"
  | BeginPath
  | MoveTo real real
  | LineTo real real
  | Stroke
  | FillStyle string
  | Font string
  | TextAlign string
  | TextBaseline string
  | FillText string real real

text \<open>Lines 131 to 133: the eased progress \<^verbatim>\<open>prog\<close> and the tip \<^verbatim>\<open>(tipX, tipY)\<close>.\<close>

definition tipPoint :: "Model \<Rightarrow> real \<Rightarrow> real \<times> real" where
  "tipPoint model tt =
     (let prog = 1 / 2 * (1 - cos (pi * max 0 (min 1 tt)));
          tipX = startX model + (endX model - startX model) * prog;
          tipY = startY model + (yFinal model - startY model) * prog
      in (tipX, tipY))"

text \<open>Lines 126 to 128: clear and scale.\<close>

definition drawClear :: "real \<Rightarrow> Model \<Rightarrow> canvas_op list" where
  "drawClear dpr model =
     [SetTransform 1 0 0 1 0 0, Scale dpr dpr, ClearRect 0 0 (width model) (height model)]"

text \<open>Lines 136 to 141: the vertical axis on the left.\<close>

definition drawAxis :: "Model \<Rightarrow> canvas_op list" where
  "drawAxis model =
     [StrokeStyle ''rgba(148,163,184,0.20)'', LineWidth (Fin 1), BeginPath,
      MoveTo (padX model + 20) (padTop model + 1 / 2),
      LineTo (padX model + 20) (height model - padBottom model + 1 / 2),
      Stroke]"

text \<open>Lines 144 to 150: the dashed horizontal line through \<^verbatim>\<open>startY\<close>.\<close>

definition drawGridline :: "Model \<Rightarrow> canvas_op list" where
  "drawGridline model =
     [StrokeStyle ''rgba(148,163,184,0.12)'', SetLineDash [2, 3], BeginPath,
      MoveTo (startX model) (startY model + 1 / 2),
      LineTo (endX model) (startY model + 1 / 2),
      Stroke, SetLineDash []]"

text \<open>Lines 155 to 161: the line from the start point to the tip.\<close>

definition drawLine :: "Model \<Rightarrow> real \<Rightarrow> canvas_op list" where
  "drawLine model tt =
     [StrokeStyle (strokeColor model), LineWidth (lineWidth model), LineCap ''round'',
      BeginPath,
      MoveTo (startX model) (startY model),
      LineTo (fst (tipPoint model tt)) (snd (tipPoint model tt)),
      Stroke]"

text \<open>
  Lines 168 to 178: the axis labels. The parameter of type
  \<^verbatim>\<open>[string, string] | undefined\<close> is an optional pair, so the test
  \<^verbatim>\<open>Array.isArray(xLabels) && xLabels.length === 2\<close> is the test for \<open>Some\<close>.
\<close>

definition drawXLabels :: "Props \<Rightarrow> Model \<Rightarrow> (string \<times> string) option \<Rightarrow> canvas_op list" where
  "drawXLabels props model labels =
     (case labels of
        None \<Rightarrow> []
      | Some (l0, l1) \<Rightarrow>
          (let x0 = padX model + 24;
               x1 = endX model;
               yAxisLabels = height model - padBottom model
                             + (if compact_on props then 10 else 12)
           in [FillStyle ''rgba(148,163,184,0.75)'',
               Font ''10.5px ui-sans-serif, system-ui, -apple-system, Segoe UI, Roboto, Helvetica, Arial'',
               TextAlign ''center'', TextBaseline ''top'',
               FillText l0 x0 yAxisLabels, FillText l1 x1 yAxisLabels]))"

text \<open>The whole routine; \<open>props\<close> is the closure it reads \<^verbatim>\<open>compact\<close> from.\<close>

definition draw :: "Props \<Rightarrow> real \<Rightarrow> Model \<Rightarrow> real \<Rightarrow> (string \<times> string) option \<Rightarrow> canvas_op list" where
  "draw props dpr model tt labels =
     drawClear dpr model @ drawAxis model @ drawGridline model @ drawLine model tt
     @ drawXLabels props model labels"

subsection \<open>Hover projection: \<^verbatim>\<open>onMouseMove\<close> (lines 244 to 256)\<close>

text \<open>
  \<^verbatim>\<open>modelRef\<close> is typed \<^verbatim>\<open>any\<close> and holds the object literal that \<^verbatim>\<open>buildModel\<close>
  returns in line 113. Reading a property of it yields the property's value if the
  literal has that property, and \<^verbatim>\<open>undefined\<close> (\<open>None\<close>) otherwise.
\<close>

datatype jsval = VNum jsnum | VStr string | VTpl rgba_tpl

definition model_get :: "Model \<Rightarrow> string \<Rightarrow> jsval option" where
  "model_get m =
     map_of
       [(''width'', VNum (Fin (width m))), (''height'', VNum (Fin (height m))),
        (''padTop'', VNum (Fin (padTop m))), (''padBottom'', VNum (Fin (padBottom m))),
        (''padX'', VNum (Fin (padX m))), (''strokeColor'', VStr (strokeColor m)),
        (''tipGlowColor'', VStr (tipGlowColor m)), (''label'', VStr (label m)),
        (''labelWidth'', VNum (Fin (labelWidth m))), (''startX'', VNum (Fin (startX m))),
        (''startY'', VNum (Fin (startY m))), (''endX'', VNum (Fin (endX m))),
        (''yFinal'', VNum (Fin (yFinal m))), (''areaStartColor'', VTpl (areaStartColor m)),
        (''areaEndColor'', VTpl (areaEndColor m)), (''lineWidth'', VNum (lineWidth m)),
        (''tipRadius'', VNum (Fin (tipRadius m))), (''glowRadius'', VNum (glowRadius m)),
        (''duration'', VNum (Fin (duration m)))]"

text \<open>The state \<^verbatim>\<open>hover\<close> (line 32).\<close>

record Hover =
  hover_x :: real
  hover_y :: real
  hover_pct :: jsnum

text \<open>
  The handler, given \<^verbatim>\<open>modelRef.current\<close>, the left edge of the wrapper's bounding
  rectangle, the pointer's \<^verbatim>\<open>clientX\<close> and the current hover state; the result is the
  hover state after it. The wrapper element exists whenever the handler runs, so only the
  test \<^verbatim>\<open>!m\<close> of line 246 can return early.
\<close>

definition onMouseMove :: "Model option \<Rightarrow> real \<Rightarrow> real \<Rightarrow> Hover option \<Rightarrow> Hover option" where
  "onMouseMove current rectLeft clientX hover =
     (case current of
        None \<Rightarrow> hover
      | Some m \<Rightarrow>
          (let localX = clientX - rectLeft;
               clampedX = max (startX m) (min (endX m) localX);
               ratio = (if endX m = startX m then 0
                        else (clampedX - startX m) / (endX m - startX m));
               yOnLine = startY m + (yFinal m - startY m) * ratio;
               base = (case model_get m ''pValue'' of Some (VNum v) \<Rightarrow> v | _ \<Rightarrow> Fin 0);
               pct = js_max (Fin 0) (js_min (Fin 1000) (js_mul base (Fin ratio)))
           in Some \<lparr> hover_x = clampedX, hover_y = yOnLine, hover_pct = pct \<rparr>))"

subsection \<open>The component's event loop: \<^verbatim>\<open>renderOnce\<close>, \<^verbatim>\<open>step\<close> and the effects\<close>

text \<open>
  The host runs the component's callbacks one at a time. Its part is modelled by three
  things: the list of pending animation-frame callbacks with their handles
  (\<^verbatim>\<open>requestAnimationFrame\<close> appends, \<^verbatim>\<open>cancelAnimationFrame\<close> removes, a frame runs
  the callbacks pending at its start), the readings the component takes from it
  (\<open>Env\<close>), and the time stamps it passes.
\<close>

record Env =
  rectWidth :: real
  rectHeight :: real
  devicePixelRatio :: real
  now :: real

text \<open>
  What the closure \<^verbatim>\<open>step\<close> of one call of \<^verbatim>\<open>renderOnce\<close> has captured: the props
  and \<^verbatim>\<open>inView\<close> of the render that created \<^verbatim>\<open>renderOnce\<close>, and \<^verbatim>\<open>dpr\<close>,
  \<^verbatim>\<open>model\<close> and \<^verbatim>\<open>start\<close> of the call. A chain of frame callbacks is the repeated
  scheduling of one such closure.
\<close>

record Chain =
  ch_props :: Props
  ch_inView :: bool
  ch_dpr :: real
  ch_model :: Model
  ch_start :: real

text \<open>
  One call of \<^verbatim>\<open>draw\<close>, as the log of paints keeps it: the arguments of the call, and
  beside them the cached Model and the size of the canvas at that moment.
\<close>

record Paint =
  paint_model :: Model
  paint_dpr :: real
  paint_progress :: real
  paint_ops :: "canvas_op list"
  cached_then :: "Model option"
  canvas_then :: "real \<times> real"

text \<open>
  The state: the props and \<^verbatim>\<open>inView\<close> that the current \<^verbatim>\<open>renderOnce\<close> closes over,
  the refs \<^verbatim>\<open>rafRef\<close> and \<^verbatim>\<open>modelRef\<close>, the canvas size in device pixels, the host's
  pending frame callbacks and next handle, and the log of paints.
\<close>

record State =
  st_props :: Props
  st_inView :: bool
  rafRef :: "nat option"
  modelRef :: "Model option"
  canvasSize :: "real \<times> real"
  pending :: "(nat \<times> Chain) list"
  nextHandle :: nat
  paints :: "Paint list"

text \<open>
  \<^verbatim>\<open>requestAnimationFrame(step)\<close> followed by the assignment of its handle to
  \<^verbatim>\<open>rafRef.current\<close> (lines 207 and 210).
\<close>

definition requestFrame :: "Chain \<Rightarrow> State \<Rightarrow> State" where
  "requestFrame ch st =
     st\<lparr> pending := pending st @ [(nextHandle st, ch)],
         rafRef := Some (nextHandle st),
         nextHandle := Suc (nextHandle st) \<rparr>"

text \<open>\<^verbatim>\<open>cancelAnimationFrame(h)\<close>.\<close>

definition cancelFrame :: "nat \<Rightarrow> State \<Rightarrow> State" where
  "cancelFrame h st = st\<lparr> pending := filter (\<lambda>e. fst e \<noteq> h) (pending st) \<rparr>"

text \<open>
  \<^verbatim>\<open>renderOnce\<close> (lines 181 to 212), called on a mounted component whose canvas has a
  2d context, so that the early returns of lines 183 and 185 are not taken. It sizes the
  canvas, builds and caches the Model and requests the first frame of a new chain. It
  cancels nothing.
\<close>

definition renderOnce :: "(string \<Rightarrow> real) \<Rightarrow> Env \<Rightarrow> State \<Rightarrow> State" where
  "renderOnce measureText env st =
     (let rawDpr = (if devicePixelRatio env = 0 then 1 else devicePixelRatio env);
          dpr = min 2 (max 1 (js_floor rawDpr));
          cssW = max 1 (js_floor (rectWidth env));
          cssH = max 1 (js_floor (rectHeight env));
          model = buildModel (st_props st) measureText cssW cssH;
          st1 = st\<lparr> canvasSize := (max 1 (js_floor (cssW * dpr)), max 1 (js_floor (cssH * dpr))),
                     modelRef := Some model \<rparr>;
          start = now env
      in requestFrame \<lparr> ch_props = st_props st, ch_inView = st_inView st, ch_dpr = dpr,
                        ch_model = model, ch_start = start \<rparr> st1)"

text \<open>
  The frame callback \<^verbatim>\<open>step\<close> (lines 202 to 209) of a chain, run at the time stamp
  \<open>ts\<close>. In a browser \<^verbatim>\<open>typeof document === 'undefined'\<close> is false.
\<close>

definition step :: "Chain \<Rightarrow> real \<Rightarrow> State \<Rightarrow> State" where
  "step ch ts st =
     (let raw = min 1 (max 0 ((ts - ch_start ch) / duration (ch_model ch)));
          eased = 1 / 2 * (1 - cos (pi * raw));
          st1 = st\<lparr> paints := paints st @
                   [\<lparr> paint_model = ch_model ch, paint_dpr = ch_dpr ch, paint_progress = eased,
                      paint_ops = draw (ch_props ch) (ch_dpr ch) (ch_model ch) eased
                                    (xLabels (ch_props ch)),
                      cached_then = modelRef st, canvas_then = canvasSize st \<rparr>] \<rparr>
      in if raw < 1 \<and> ch_inView ch then requestFrame ch st1 else st1)"

text \<open>An animation frame at time \<open>ts\<close>: the callbacks pending at its start run in order.\<close>

definition frame :: "real \<Rightarrow> State \<Rightarrow> State" where
  "frame ts st = foldl (\<lambda>s e. step (snd e) ts s) (st\<lparr> pending := [] \<rparr>) (pending st)"

text \<open>The cleanup of the effect of lines 214 to 218; a handle is a non-zero number.\<close>

definition effectCleanup :: "State \<Rightarrow> State" where
  "effectCleanup st =
     (case rafRef st of
        None \<Rightarrow> st
      | Some h \<Rightarrow> if h \<noteq> 0 then cancelFrame h st else st)"

text \<open>The body of that effect, in a browser.\<close>

definition effectRun :: "(string \<Rightarrow> real) \<Rightarrow> Env \<Rightarrow> State \<Rightarrow> State" where
  "effectRun measureText env st =
     (if \<not> st_inView st then st else renderOnce measureText env st)"

text \<open>
  The dependencies of \<^verbatim>\<open>renderOnce\<close> (line 212) are \<^verbatim>\<open>percent\<close>, \<^verbatim>\<open>color\<close> (after its
  default), the JSON text of \<^verbatim>\<open>xLabels\<close>, \<^verbatim>\<open>inView\<close> and \<^verbatim>\<open>compact\<close>; those of the
  effect of lines 214 to 218 are \<^verbatim>\<open>inView\<close> and \<^verbatim>\<open>renderOnce\<close>. A render with new props
  and \<^verbatim>\<open>inView\<close> changes one of them exactly when it differs from the render that the
  current \<^verbatim>\<open>renderOnce\<close> closes over in one of these five. The knobs \<^verbatim>\<open>durationMs\<close>,
  \<^verbatim>\<open>lineWidth\<close>, \<^verbatim>\<open>glowRadius\<close> and \<^verbatim>\<open>areaAlpha\<close> are not among them.
\<close>

definition depsChanged :: "State \<Rightarrow> Props \<Rightarrow> bool \<Rightarrow> bool" where
  "depsChanged st props inView =
     (percent props \<noteq> percent (st_props st) \<or> color props \<noteq> color (st_props st)
      \<or> xLabels props \<noteq> xLabels (st_props st) \<or> inView \<noteq> st_inView st
      \<or> compactP props \<noteq> compactP (st_props st))"

text \<open>
  The events of the loop. \<open>Resize\<close> is a notification of the resize observer (lines 224 to
  227), which calls \<^verbatim>\<open>renderOnce\<close>. \<open>Update\<close> is a render with the given props and
  \<^verbatim>\<open>inView\<close>. If no dependency changed, nothing runs, and \<^verbatim>\<open>renderOnce\<close> keeps the
  closure of the earlier render. Otherwise the cleanup that the previous run of the effect
  registered runs, and then the effect with the new props and \<^verbatim>\<open>inView\<close>; the previous
  run registered a cleanup only if it did not return early in line 215, that is if its
  \<^verbatim>\<open>inView\<close> was true. \<open>Frame\<close> is an animation frame.
\<close>

datatype event = Resize Env | Update Props bool Env | Frame real

fun handle :: "(string \<Rightarrow> real) \<Rightarrow> State \<Rightarrow> event \<Rightarrow> State" where
  "handle measureText st (Resize env) = renderOnce measureText env st"
| "handle measureText st (Update props inView env) =
     (if depsChanged st props inView
      then effectRun measureText env
             ((if st_inView st then effectCleanup st else st)
                \<lparr> st_props := props, st_inView := inView \<rparr>)
      else st)"
| "handle measureText st (Frame ts) = frame ts st"

text \<open>
  The component after its mount out of view: the effect has returned early, nothing is
  cached and nothing is pending.
\<close>

definition initial :: "Props \<Rightarrow> State" where
  "initial props =
     \<lparr> st_props = props, st_inView = False, rafRef = None, modelRef = None,
       canvasSize = (300, 150), pending = [], nextHandle = 1, paints = [] \<rparr>"

text \<open>The state after a list of events, from the left.\<close>

definition run :: "(string \<Rightarrow> real) \<Rightarrow> State \<Rightarrow> event list \<Rightarrow> State" where
  "run measureText st evs = foldl (handle measureText) st evs"

text \<open>
  A paint is stale if the Model it draws is not the cached Model of that moment.
\<close>

definition stale :: "Paint \<Rightarrow> bool" where
  "stale p = (cached_then p \<noteq> Some (paint_model p))"

text \<open>What a paint saw: the Model it drew, the cached Model and the canvas size.\<close>

definition seen :: "Paint \<Rightarrow> Model \<times> Model option \<times> real \<times> real" where
  "seen p = (paint_model p, cached_then p, canvas_then p)"

subsection \<open>Named parts of \<^verbatim>\<open>buildModel\<close> and fixtures for the examples\<close>

text \<open>
  The second argument of \<^verbatim>\<open>Math.max\<close> in line 93, \<^verbatim>\<open>cssW - padX - rightGutter\<close>: the
  end of the line before it is floored at \<^verbatim>\<open>startX\<close>. Lemma \<open>endX_buildModel\<close> below
  ties it to \<open>buildModel\<close>.
\<close>

definition endX_unfloored :: "Props \<Rightarrow> (string \<Rightarrow> real) \<Rightarrow> real \<Rightarrow> real \<Rightarrow> real" where
  "endX_unfloored props measureText cssW cssH =
     cssW - padX (buildModel props measureText cssW cssH)
       - max (if compact_on props then 30 else 36)
             (labelWidth (buildModel props measureText cssW cssH) + 18)"

text \<open>
  The metric as the specification words it: 100 for an absent or non-finite input, then
  clamped to [0, 1000].
\<close>

fun spec_metric :: "jsnum option \<Rightarrow> real" where
  "spec_metric (Some (Fin r)) = max 0 (min 1000 r)"
| "spec_metric _ = max 0 (min 1000 100)"

text \<open>The four interpolated numbers of an area colour.\<close>

fun tpl_rgb :: "rgba_tpl \<Rightarrow> jsnum \<times> jsnum \<times> jsnum" where
  "tpl_rgb (RgbaTpl r g b a) = (r, g, b)"

fun tpl_alpha :: "rgba_tpl \<Rightarrow> jsnum" where
  "tpl_alpha (RgbaTpl r g b a) = a"

text \<open>The component rendered with no prop given.\<close>

definition noProps :: Props where
  "noProps = \<lparr> percent = None, xLabels = None, ariaLabel = None, colorP = None,
               compactP = None, durationMs = None, lineWidthOverride = None,
               glowRadiusOverride = None, areaAlphaOverride = None \<rparr>"

text \<open>A text measure for the examples: seven pixels a character.\<close>

definition sevenPx :: "string \<Rightarrow> real" where
  "sevenPx s = 7 * real (length s)"

text \<open>The readings of the host for the examples: a wrapper 300 and 600 pixels wide.\<close>

definition env300 :: Env where
  "env300 = \<lparr> rectWidth = 300, rectHeight = 100, devicePixelRatio = 1, now = 0 \<rparr>"

definition env600 :: Env where
  "env600 = \<lparr> rectWidth = 600, rectHeight = 100, devicePixelRatio = 1, now = 8 \<rparr>"

section \<open>Properties\<close>

subsection \<open>The fields of the built Model\<close>

text \<open>
  Each lemma reads one field off the record that \<open>buildModel\<close> returns, so that a proof
  about one field never unfolds the others.
\<close>

lemma width_buildModel: "width (buildModel props measureText cssW cssH) = cssW"
  by (simp only: buildModel_def Let_def Model.select_convs)

lemma height_buildModel: "height (buildModel props measureText cssW cssH) = cssH"
  by (simp only: buildModel_def Let_def Model.select_convs)

lemma padTop_buildModel:
  "padTop (buildModel props measureText cssW cssH) = (if compact_on props then 6 else 10)"
  by (simp only: buildModel_def Let_def Model.select_convs)

lemma padBottom_buildModel:
  "padBottom (buildModel props measureText cssW cssH) = (if compact_on props then 14 else 18)"
  by (simp only: buildModel_def Let_def Model.select_convs)

lemma startX_buildModel:
  "startX (buildModel props measureText cssW cssH) = (if compact_on props then 32 else 38)"
  by (simp only: buildModel_def Let_def Model.select_convs; simp)

lemma startY_buildModel:
  "startY (buildModel props measureText cssW cssH) =
     cssH - (if compact_on props then 14 else 18) - 1"
  by (simp only: buildModel_def Let_def Model.select_convs)

lemma endX_buildModel:
  "endX (buildModel props measureText cssW cssH) =
     max (startX (buildModel props measureText cssW cssH))
         (endX_unfloored props measureText cssW cssH)"
  by (simp only: buildModel_def endX_unfloored_def Let_def Model.select_convs)

lemma endX_ge_startX:
  "startX (buildModel props measureText cssW cssH) \<le> endX (buildModel props measureText cssW cssH)"
  by (simp add: endX_buildModel)

lemma duration_buildModel:
  "duration (buildModel props measureText cssW cssH) =
     (case durationMs props of
        Some (Fin d) \<Rightarrow> max 200 (min 4000 (real_of_int \<lfloor>d\<rfloor>))
      | _ \<Rightarrow> 980)"
  by (simp only: buildModel_def Let_def Model.select_convs;
      simp add: js_floor_def split: option.splits jsnum.splits)

lemma lineWidth_buildModel:
  "lineWidth (buildModel props measureText cssW cssH) =
     (case lineWidthOverride props of
        Some v \<Rightarrow> v
      | None \<Rightarrow> Fin (if compact_on props then 12 / 10 else 14 / 10))"
  by (simp only: buildModel_def Let_def Model.select_convs)

lemma glowRadius_buildModel:
  "glowRadius (buildModel props measureText cssW cssH) =
     (case glowRadiusOverride props of
        Some v \<Rightarrow> v
      | None \<Rightarrow> Fin (if compact_on props then 8 else 10))"
  by (simp only: buildModel_def Let_def Model.select_convs)

lemma areaAlpha_buildModel:
  "tpl_alpha (areaStartColor (buildModel props measureText cssW cssH)) =
     (case areaAlphaOverride props of
        Some v \<Rightarrow> js_max (Fin 0) (js_min (Fin 1) v)
      | None \<Rightarrow> Fin (if compact_on props then 8 / 100 else 12 / 100))"
  by (simp only: buildModel_def Let_def Model.select_convs tpl_alpha.simps)

lemma strokeColor_buildModel:
  "strokeColor (buildModel props measureText cssW cssH) = color props"
  by (simp only: buildModel_def Let_def Model.select_convs)

lemma tipGlowColor_buildModel:
  "tipGlowColor (buildModel props measureText cssW cssH) =
     (if redSig_test (color props) then ''rgba(239,68,68,0.9)'' else ''rgba(16,185,129,0.9)'')"
  by (simp only: buildModel_def Let_def Model.select_convs)

lemma areaStartRgb_buildModel:
  "tpl_rgb (areaStartColor (buildModel props measureText cssW cssH)) =
     (case rgba_exec (color props) of
        None \<Rightarrow> (Fin 16, Fin 185, Fin 129)
      | Some (g1, g2, g3) \<Rightarrow> (parseInt10 g1, parseInt10 g2, parseInt10 g3))"
  by (simp only: buildModel_def Let_def Model.select_convs; simp split: option.splits)

lemma areaEndRgb_buildModel:
  "tpl_rgb (areaEndColor (buildModel props measureText cssW cssH)) =
     (case rgba_exec (color props) of
        None \<Rightarrow> (Fin 16, Fin 185, Fin 129)
      | Some (g1, g2, g3) \<Rightarrow> (parseInt10 g1, parseInt10 g2, parseInt10 g3))"
  by (simp only: buildModel_def Let_def Model.select_convs; simp split: option.splits)

text \<open>The metric in the specification's words, and \<open>yFinal\<close> in terms of it.\<close>

lemma spec_metric_range: "0 \<le> spec_metric v \<and> spec_metric v \<le> 1000"
  by (cases v rule: spec_metric.cases) simp_all

lemma yFinal_buildModel:
  "yFinal (buildModel props measureText cssW cssH) =
     (if compact_on props then 6 else 10)
     + (1 - spec_metric (percent props) / 1000)
       * max 1 (cssH - (if compact_on props then 6 else 10)
                - (if compact_on props then 14 else 18))"
proof -
  have n: "max 0 (min 1 (spec_metric (percent props) / 1000)) = spec_metric (percent props) / 1000"
    using spec_metric_range [of "percent props"] by (simp add: max_def min_def)
  have p: "max 0 (min 1000 (case percent props of
                              Some v \<Rightarrow> (case v of Fin r \<Rightarrow> r | _ \<Rightarrow> 100)
                            | None \<Rightarrow> 100))
           = spec_metric (percent props)"
    by (cases "percent props" rule: spec_metric.cases) simp_all
  have "yFinal (buildModel props measureText cssW cssH) =
          (if compact_on props then 6 else 10)
          + (1 - max 0 (min 1 (max 0 (min 1000 (case percent props of
                              Some v \<Rightarrow> (case v of Fin r \<Rightarrow> r | _ \<Rightarrow> 100)
                            | None \<Rightarrow> 100)) / 1000)))
            * max 1 (cssH - (if compact_on props then 6 else 10)
                     - (if compact_on props then 14 else 18))"
    by (simp only: buildModel_def Let_def Model.select_convs)
  then show ?thesis
    by (simp only: p n)
qed

text \<open>The fixtures: no props, seven pixels a character, a wrapper of 300 by 100.\<close>

lemma compact_on_noProps:
  "compact_on noProps = False"
  "compact_on (noProps\<lparr>percent := v\<rparr>) = False"
  "compact_on (noProps\<lparr>colorP := c\<rparr>) = False"
  by (simp_all add: noProps_def compact_on_def)

lemma percent_noProps: "percent noProps = None"
  by (simp add: noProps_def)

lemma color_Some: "color (props\<lparr>colorP := Some c\<rparr>) = c"
  by (simp add: color_def)

lemma color_None: "color (props\<lparr>colorP := None\<rparr>) = ''rgba(16,185,129,0.8)''"
  by (simp add: color_def)

lemma show_int_100: "show_int (js_round 100) = ''100''"
  by (simp add: show_int_def js_round_def show_nat.simps digit_char_def)

lemma show_int_500: "show_int (js_round 500) = ''500''"
  by (simp add: show_int_def js_round_def show_nat.simps digit_char_def)

lemma endX_unfloored_100: "endX_unfloored noProps sevenPx 300 100 = 237"
  by (simp only: endX_unfloored_def buildModel_def Let_def Model.select_convs;
      simp add: noProps_def compact_on_def sevenPx_def show_int_100)

lemma endX_unfloored_100_wide: "endX_unfloored noProps sevenPx 600 100 = 537"
  by (simp only: endX_unfloored_def buildModel_def Let_def Model.select_convs;
      simp add: noProps_def compact_on_def sevenPx_def show_int_100)

lemma endX_unfloored_500:
  "endX_unfloored (noProps\<lparr>percent := Some (Fin 500)\<rparr>) sevenPx 300 100 = 237"
  by (simp only: endX_unfloored_def buildModel_def Let_def Model.select_convs;
      simp add: noProps_def compact_on_def sevenPx_def show_int_500)

subsection \<open>The patterns\<close>

lemma lit_iff: "lit p s = Some r \<longleftrightarrow> s = p @ r"
proof
  assume "lit p s = Some r"
  then have "take (length p) s = p" and "r = drop (length p) s"
    by (auto simp: lit_def split: if_splits)
  then show "s = p @ r"
    using append_take_drop_id [of "length p" s] by simp
next
  assume "s = p @ r"
  then show "lit p s = Some r" by (simp add: lit_def)
qed

lemma not_space_digit: "is_digit c \<Longrightarrow> \<not> is_space c"
  by (auto simp: is_digit_def is_space_def)

lemma not_digit_space: "is_space c \<Longrightarrow> \<not> is_digit c"
  using not_space_digit by blast

lemma digit_not_sign: "is_digit c \<Longrightarrow> c \<noteq> CHR ''-'' \<and> c \<noteq> CHR ''+''"
  by (auto simp: is_digit_def)

lemma not_digit_punct: "\<not> is_digit CHR '',''" "\<not> is_digit CHR '')''" "\<not> is_digit CHR ''.''"
  by (simp_all add: is_digit_def)

lemma not_space_punct: "\<not> is_space CHR '',''" "\<not> is_space CHR '')''" "\<not> is_space CHR ''6''"
  by (simp_all add: is_space_def)

lemma dropWhile_spaces:
  "list_all is_space w \<Longrightarrow> \<not> is_space c \<Longrightarrow> dropWhile is_space (w @ c # r) = c # r"
  by (induction w) auto

lemma takeWhile_digit_spaces: "list_all is_space w \<Longrightarrow> takeWhile is_digit w = []"
  by (cases w) (auto simp: not_digit_space)

lemma takeWhile_digits_then_spaces:
  "list_all is_digit ds \<Longrightarrow> list_all is_space w \<Longrightarrow> takeWhile is_digit (ds @ w) = ds"
  by (induction ds) (auto simp: takeWhile_digit_spaces)

lemma span_digits:
  assumes "list_all is_digit ds" and "\<not> is_digit c"
  shows "takeWhile is_digit (ds @ c # r) = ds" and "dropWhile is_digit (ds @ c # r) = c # r"
  using assms by (induction ds) auto

lemma no_leading_space:
  assumes "list_all is_digit ds" and "ds \<noteq> []"
  shows "takeWhile is_space (ds @ r) = []" and "dropWhile is_space (ds @ r) = ds @ r"
  using assms by (cases ds; simp add: not_space_digit)+

text \<open>
  The red signature. The anchored matcher accepts exactly the inputs that begin with
  \<^verbatim>\<open>239,\<close>, white space, \<^verbatim>\<open>68,\<close>, white space, \<^verbatim>\<open>68\<close>; the test accepts exactly the
  strings that contain such a piece.
\<close>

lemma redSig_at_iff:
  "redSig_at s \<longleftrightarrow>
     (\<exists>w1 w2 post. s = ''239,'' @ w1 @ ''68,'' @ w2 @ ''68'' @ post
        \<and> list_all is_space w1 \<and> list_all is_space w2)"
proof
  assume "redSig_at s"
  then obtain s1 s2 s3 where
    1: "s = ''239,'' @ s1" and
    2: "dropWhile is_space s1 = ''68,'' @ s2" and
    3: "dropWhile is_space s2 = ''68'' @ s3"
    unfolding redSig_at_def by (auto split: option.splits simp: lit_iff)
  have a: "takeWhile is_space s1 @ ''68,'' @ s2 = s1"
    using takeWhile_dropWhile_id [of is_space s1] 2 by simp
  have b: "takeWhile is_space s2 @ ''68'' @ s3 = s2"
    using takeWhile_dropWhile_id [of is_space s2] 3 by simp
  have "s = ''239,'' @ takeWhile is_space s1 @ ''68,'' @ takeWhile is_space s2 @ ''68'' @ s3"
    by (simp only: 1 a b)
  moreover have "list_all is_space (takeWhile is_space s1)"
    and "list_all is_space (takeWhile is_space s2)"
    by (auto simp: list_all_iff dest: set_takeWhileD)
  ultimately show "\<exists>w1 w2 post. s = ''239,'' @ w1 @ ''68,'' @ w2 @ ''68'' @ post
        \<and> list_all is_space w1 \<and> list_all is_space w2"
    by blast
next
  assume "\<exists>w1 w2 post. s = ''239,'' @ w1 @ ''68,'' @ w2 @ ''68'' @ post
        \<and> list_all is_space w1 \<and> list_all is_space w2"
  then obtain w1 w2 post where s: "s = ''239,'' @ w1 @ ''68,'' @ w2 @ ''68'' @ post"
    and w: "list_all is_space w1" "list_all is_space w2"
    by blast
  have 1: "lit ''239,'' s = Some (w1 @ ''68,'' @ w2 @ ''68'' @ post)"
    by (simp add: lit_iff s)
  have 2: "dropWhile is_space (w1 @ ''68,'' @ w2 @ ''68'' @ post) = ''68,'' @ w2 @ ''68'' @ post"
    using dropWhile_spaces [OF w(1) not_space_punct(3)] by simp
  have 3: "lit ''68,'' (''68,'' @ w2 @ ''68'' @ post) = Some (w2 @ ''68'' @ post)"
    by (simp add: lit_iff)
  have 4: "dropWhile is_space (w2 @ ''68'' @ post) = ''68'' @ post"
    using dropWhile_spaces [OF w(2) not_space_punct(3)] by simp
  have 5: "lit ''68'' (''68'' @ post) = Some post"
    by (simp add: lit_iff)
  show "redSig_at s"
    unfolding redSig_at_def by (simp only: 1 2 3 4 5 option.case) simp
qed

lemma redSig_test_iff: "redSig_test s \<longleftrightarrow> (\<exists>pre rest. s = pre @ rest \<and> redSig_at rest)"
proof (induction s)
  case Nil
  then show ?case by (simp add: redSig_test.simps)
next
  case (Cons c cs)
  show ?case
  proof
    assume "redSig_test (c # cs)"
    then consider "redSig_at (c # cs)" | "redSig_test cs"
      by (auto simp: redSig_test.simps)
    then show "\<exists>pre rest. c # cs = pre @ rest \<and> redSig_at rest"
    proof cases
      case 1
      then have "c # cs = [] @ (c # cs) \<and> redSig_at (c # cs)" by simp
      then show ?thesis by blast
    next
      case 2
      then obtain pre rest where "cs = pre @ rest" "redSig_at rest"
        using Cons.IH by blast
      then have "c # cs = (c # pre) @ rest \<and> redSig_at rest" by simp
      then show ?thesis by blast
    qed
  next
    assume "\<exists>pre rest. c # cs = pre @ rest \<and> redSig_at rest"
    then obtain pre rest where pr: "c # cs = pre @ rest" "redSig_at rest" by blast
    show "redSig_test (c # cs)"
    proof (cases pre)
      case Nil
      with pr have "redSig_at (c # cs)" by simp
      then show ?thesis by (simp add: redSig_test.simps)
    next
      case (Cons a pre')
      then have "cs = pre' @ rest" using pr by simp
      then have "redSig_test cs" using Cons.IH pr(2) by blast
      then show ?thesis by (simp add: redSig_test.simps)
    qed
  qed
qed

lemma redSig_test_contains:
  "redSig_test s \<longleftrightarrow>
     (\<exists>pre w1 w2 post. s = pre @ ''239,'' @ w1 @ ''68,'' @ w2 @ ''68'' @ post
        \<and> list_all is_space w1 \<and> list_all is_space w2)"
  unfolding redSig_test_iff redSig_at_iff by blast

text \<open>
  The Number value of a natural number is that number below \<open>2 ^ 53\<close>, and in general a
  natural number or \<^verbatim>\<open>Infinity\<close>.
\<close>

lemma round53_exact: "n < 2 ^ 53 \<Longrightarrow> round53 n = n"
  by (simp only: round53_def if_True)

lemma number_of_nat_exact:
  assumes "n < 2 ^ 53"
  shows "number_of_nat n = Fin (real n)"
proof -
  have "(2::nat) ^ 53 \<le> 2 ^ 1024" by (rule power_increasing) simp_all
  with assms have "n < 2 ^ 1024" by (rule less_le_trans)
  then have "\<not> 2 ^ 1024 \<le> round53 n"
    by (simp only: round53_exact [OF assms] not_le)
  then show ?thesis
    by (simp only: number_of_nat_def round53_exact [OF assms] if_False)
qed

lemma number_of_nat_cases: "(\<exists>m. number_of_nat n = Fin (real m)) \<or> number_of_nat n = PosInf"
proof (cases "2 ^ 1024 \<le> round53 n")
  case True
  then show ?thesis by (simp only: number_of_nat_def if_True simp_thms)
next
  case False
  then have "number_of_nat n = Fin (real (round53 n))"
    by (simp only: number_of_nat_def if_False)
  then show ?thesis by blast
qed

lemma bit_length_bounds: "0 < n \<Longrightarrow> 2 ^ (bit_length n - 1) \<le> n \<and> n < 2 ^ bit_length n"
proof (induction n rule: bit_length.induct)
  case (1 n)
  show ?case
  proof (cases "n div 2 = 0")
    case True
    with 1(2) have "n = 1" by linarith
    then show ?thesis by (simp add: bit_length.simps)
  next
    case False
    then have h: "2 ^ (bit_length (n div 2) - 1) \<le> n div 2 \<and> n div 2 < 2 ^ bit_length (n div 2)"
      using 1 by simp
    from False have pos: "0 < bit_length (n div 2)"
      by (subst bit_length.simps) simp
    have b: "bit_length n = Suc (bit_length (n div 2))"
      using 1(2) by (subst bit_length.simps) simp
    have "2 ^ bit_length (n div 2) = (2::nat) * 2 ^ (bit_length (n div 2) - 1)"
      using pos by (cases "bit_length (n div 2)") simp_all
    then have "2 ^ (bit_length n - 1) \<le> n"
      using h b by simp linarith
    moreover have "n < 2 ^ bit_length n"
      using h b by simp linarith
    ultimately show ?thesis by blast
  qed
qed

text \<open>From \<open>2 ^ 1024\<close> on a natural number reads as \<^verbatim>\<open>Infinity\<close>.\<close>

lemma round53_lower:
  assumes "2 ^ 53 \<le> n"
  shows "2 ^ (bit_length n - 1) \<le> round53 n"
proof -
  define k where "k = bit_length n"
  define e where "e = k - 53"
  have pos: "0 < n" using assms by (meson less_le_trans zero_less_numeral zero_less_power)
  from bit_length_bounds [OF pos] have lo: "2 ^ (k - 1) \<le> n" and hi: "n < 2 ^ k"
    by (simp_all add: k_def)
  have one: "(1::nat) < 2" by simp
  have "(2::nat) ^ 53 < 2 ^ k" using assms hi by (rule le_less_trans)
  from power_less_imp_less_exp [OF one this] have k: "53 < k" .
  then have ke: "k - 1 = 52 + e" by (simp add: e_def)
  have "2 ^ 52 * 2 ^ e \<le> n" using lo by (simp only: ke power_add)
  then have "2 ^ 52 \<le> n div 2 ^ e"
    by (simp only: less_eq_div_iff_mult_less_eq zero_less_power zero_less_numeral)
  then have q: "2 ^ 52 * 2 ^ e \<le> (n div 2 ^ e) * 2 ^ e"
    by (rule mult_le_mono1)
  define q where "q = n div 2 ^ e"
  define q' where "q' = (if 2 ^ (e - 1) < n mod 2 ^ e \<or> (n mod 2 ^ e = 2 ^ (e - 1) \<and> odd q)
                         then q + 1 else q)"
  have a: "2 ^ 52 * 2 ^ e \<le> q * 2 ^ e" using q by (simp only: q_def)
  have "q \<le> q'" by (simp add: q'_def)
  then have b: "q * 2 ^ e \<le> q' * 2 ^ e" by (rule mult_le_mono1)
  have c: "round53 n = q' * 2 ^ e"
    using assms by (simp only: round53_def Let_def q'_def q_def e_def k_def not_less [symmetric] if_False)
  have "2 ^ 52 * 2 ^ e \<le> round53 n"
    unfolding c using a b by (rule order_trans)
  then show ?thesis
    by (simp only: k_def [symmetric] ke power_add)
qed

lemma number_of_nat_overflow:
  assumes "2 ^ 1024 \<le> n"
  shows "number_of_nat n = PosInf"
proof -
  have big: "(2::nat) ^ 53 \<le> 2 ^ 1024" by (rule power_increasing) simp_all
  then have n53: "2 ^ 53 \<le> n" using assms by (rule order_trans)
  then have pos: "0 < n" by (meson less_le_trans zero_less_numeral zero_less_power)
  from bit_length_bounds [OF pos] have hi: "n < 2 ^ bit_length n" by simp
  have one: "(1::nat) < 2" by simp
  have "(2::nat) ^ 1024 < 2 ^ bit_length n" using assms hi by (rule le_less_trans)
  from power_less_imp_less_exp [OF one this] have "1024 < bit_length n" .
  then have "1024 \<le> bit_length n - 1" by simp
  then have "(2::nat) ^ 1024 \<le> 2 ^ (bit_length n - 1)"
    by (intro power_increasing) simp_all
  then have "2 ^ 1024 \<le> round53 n"
    using round53_lower [OF n53] by (rule order_trans)
  then show ?thesis by (simp only: number_of_nat_def if_True)
qed

text \<open>Above \<open>2 ^ 53\<close> the value is rounded, a tie to the even significand.\<close>

lemma bit_length_54:
  "bit_length 9007199254740993 = 54" "bit_length 9007199254740995 = 54"
  by (simp_all add: bit_length.simps)

lemma number_of_nat_rounds:
  "number_of_nat 9007199254740993 = Fin 9007199254740992"
  "number_of_nat 9007199254740995 = Fin 9007199254740996"
  by (simp_all add: number_of_nat_def round53_def Let_def bit_length_54)

text \<open>
  The rgba pattern. Each captured group is white space, digits, white space, and
  \<^verbatim>\<open>parseInt\<close> reads the Number value of its digits: a match never yields \<^verbatim>\<open>NaN\<close> or a
  negative channel.
\<close>

lemma parseInt10_padded:
  assumes "list_all is_space w1" and "list_all is_digit ds" and "ds \<noteq> []"
    and "list_all is_space w2"
  shows "parseInt10 (w1 @ ds @ w2) = number_of_nat (dec_value ds)"
proof -
  obtain d ds' where ds: "ds = d # ds'" using assms(3) by (cases ds) auto
  have d: "is_digit d" using assms(2) ds by simp
  have t: "dropWhile is_space (w1 @ ds @ w2) = d # ds' @ w2"
    using dropWhile_spaces [OF assms(1) not_space_digit [OF d], of "ds' @ w2"] ds by simp
  have u: "takeWhile is_digit (d # ds' @ w2) = ds"
    using takeWhile_digits_then_spaces [OF assms(2) assms(4)] ds by simp
  show ?thesis
    unfolding parseInt10_def Let_def t
    using digit_not_sign [OF d] u assms(3) by simp
qed

lemma channel_Some:
  assumes "channel s = Some (g, r)"
  shows "\<exists>w1 ds w2. g = w1 @ ds @ w2 \<and> s = g @ r \<and> list_all is_space w1
            \<and> list_all is_digit ds \<and> ds \<noteq> [] \<and> list_all is_space w2"
proof -
  let ?w1 = "takeWhile is_space s" and ?s1 = "dropWhile is_space s"
  let ?ds = "takeWhile is_digit ?s1" and ?s2 = "dropWhile is_digit ?s1"
  let ?w2 = "takeWhile is_space ?s2" and ?s3 = "dropWhile is_space ?s2"
  from assms have g: "g = ?w1 @ ?ds @ ?w2" and r: "r = ?s3" and ne: "?ds \<noteq> []"
    by (auto simp: channel_def Let_def split: if_splits)
  have "s = ?w1 @ ?s1" by simp
  also have "?s1 = ?ds @ ?s2" by simp
  also have "?s2 = ?w2 @ ?s3" by simp
  finally have "s = g @ r" using g r by simp
  moreover have "list_all is_space ?w1" "list_all is_digit ?ds" "list_all is_space ?w2"
    by (auto simp: list_all_iff dest: set_takeWhileD)
  ultimately show ?thesis using g ne by blast
qed

lemma channel_parse:
  assumes "channel s = Some (g, r)"
  shows "\<exists>n. parseInt10 g = number_of_nat n"
proof -
  from channel_Some [OF assms] obtain w1 ds w2 where
    "g = w1 @ ds @ w2" "list_all is_space w1" "list_all is_digit ds" "ds \<noteq> []"
    "list_all is_space w2"
    by blast
  then have "parseInt10 g = number_of_nat (dec_value ds)"
    using parseInt10_padded by simp
  then show ?thesis by blast
qed

lemma rgba_at_channels:
  assumes "rgba_at s = Some (g1, g2, g3)"
  shows "\<exists>a r1 b r2 c r3. channel a = Some (g1, r1) \<and> channel b = Some (g2, r2)
           \<and> channel c = Some (g3, r3)"
  using assms unfolding rgba_at_def
  by (auto split: Option.bind_splits prod.splits)

lemma rgba_exec_at:
  "rgba_exec s = Some m \<Longrightarrow> \<exists>pre rest. s = pre @ rest \<and> rgba_at rest = Some m"
proof (induction s)
  case Nil
  then show ?case by (simp add: rgba_exec.simps)
next
  case (Cons c cs)
  show ?case
  proof (cases "rgba_at (c # cs)")
    case None
    with Cons.prems have "rgba_exec cs = Some m" by (simp add: rgba_exec.simps)
    then obtain pre rest where "cs = pre @ rest" "rgba_at rest = Some m"
      using Cons.IH by blast
    then have "c # cs = (c # pre) @ rest \<and> rgba_at rest = Some m" by simp
    then show ?thesis by blast
  next
    case (Some a)
    with Cons.prems have "c # cs = [] @ (c # cs) \<and> rgba_at (c # cs) = Some m"
      by (simp add: rgba_exec.simps)
    then show ?thesis by blast
  qed
qed

lemma rgba_exec_numbers:
  assumes "rgba_exec s = Some (g1, g2, g3)"
  shows "\<exists>n1 n2 n3. parseInt10 g1 = number_of_nat n1 \<and> parseInt10 g2 = number_of_nat n2
           \<and> parseInt10 g3 = number_of_nat n3"
proof -
  from rgba_exec_at [OF assms] obtain rest where "rgba_at rest = Some (g1, g2, g3)"
    by blast
  from rgba_at_channels [OF this] obtain a r1 b r2 c r3 where
    "channel a = Some (g1, r1)" "channel b = Some (g2, r2)" "channel c = Some (g3, r3)"
    by blast
  then show ?thesis
    using channel_parse by meson
qed

text \<open>
  The anchored matcher finds exactly the matches of the rgba pattern at the head of the
  input, with their groups, and \<open>rgba_exec\<close> returns the groups of the leftmost match: the
  greedy matchers lose nothing against a backtracking engine.
\<close>

lemma span_spaces:
  assumes "list_all is_space w" and "\<not> is_space c"
  shows "takeWhile is_space (w @ c # r) = w" and "dropWhile is_space (w @ c # r) = c # r"
  using assms by (induction w) auto

lemma span_digits_spaces:
  assumes "list_all is_digit ds" and "list_all is_space w" and "\<not> is_digit c"
  shows "takeWhile is_digit (ds @ w @ c # r) = ds"
    and "dropWhile is_digit (ds @ w @ c # r) = w @ c # r"
proof -
  have "takeWhile is_digit (ds @ w @ c # r) = ds \<and> dropWhile is_digit (ds @ w @ c # r) = w @ c # r"
  proof (cases w)
    case Nil
    then show ?thesis using span_digits [OF assms(1,3), of r] by simp
  next
    case (Cons x xs)
    then have "\<not> is_digit x" using assms(2) by (simp add: not_digit_space)
    then show ?thesis using span_digits [OF assms(1), of x "xs @ c # r"] Cons by simp
  qed
  then show "takeWhile is_digit (ds @ w @ c # r) = ds"
    and "dropWhile is_digit (ds @ w @ c # r) = w @ c # r" by simp_all
qed

lemma channel_complete:
  assumes "inGroup g" and "\<not> is_space c" and "\<not> is_digit c"
  shows "channel (g @ c # r) = Some (g, c # r)"
proof -
  from assms(1) obtain w1 ds w2 where g: "g = w1 @ ds @ w2"
    and w1: "list_all is_space w1" and ds: "list_all is_digit ds" "ds \<noteq> []"
    and w2: "list_all is_space w2"
    unfolding inGroup_def by blast
  obtain d ds' where dd: "ds = d # ds'" using ds(2) by (cases ds) auto
  then have d: "\<not> is_space d" using ds(1) by (simp add: not_space_digit)
  have 1: "takeWhile is_space (g @ c # r) = w1" "dropWhile is_space (g @ c # r) = ds @ w2 @ c # r"
    using span_spaces [OF w1 d, of "ds' @ w2 @ c # r"] by (simp_all add: g dd)
  have 2: "takeWhile is_digit (ds @ w2 @ c # r) = ds" "dropWhile is_digit (ds @ w2 @ c # r) = w2 @ c # r"
    using span_digits_spaces [OF ds(1) w2 assms(3)] by simp_all
  have 3: "takeWhile is_space (w2 @ c # r) = w2" "dropWhile is_space (w2 @ c # r) = c # r"
    using span_spaces [OF w2 assms(2)] by simp_all
  show ?thesis
    unfolding channel_def Let_def 1 2 3 using ds(2) g by simp
qed

lemma channel_sound:
  assumes "channel s = Some (g, r)"
  shows "s = g @ r \<and> inGroup g"
  using channel_Some [OF assms] unfolding inGroup_def by blast

lemma alphaGroup_complete:
  assumes "inAlpha a"
  shows "alphaGroup (a @ CHR '')'' # r) = Some (CHR '')'' # r)"
proof -
  from assms obtain w1 d1 dot d2 w2 where a: "a = w1 @ d1 @ dot @ d2 @ w2"
    and w1: "list_all is_space w1" and d1: "list_all is_digit d1"
    and dot: "dot = [] \<or> dot = ''.''" and d2: "list_all is_digit d2" "d2 \<noteq> []"
    and w2: "list_all is_space w2"
    unfolding inAlpha_def by blast
  let ?c = "CHR '')''"
  obtain e d2' where dd: "d2 = e # d2'" using d2(2) by (cases d2) auto
  have ws: "dropWhile is_space (w2 @ ?c # r) = ?c # r"
    using span_spaces(2) [OF w2 not_space_punct(2)] .
  have nd: "\<And>x. dropWhile is_space (w1 @ d1 @ x) = d1 @ x \<or> d1 = []"
  proof -
    fix x
    show "dropWhile is_space (w1 @ d1 @ x) = d1 @ x \<or> d1 = []"
    proof (cases d1)
      case Nil
      then show ?thesis by simp
    next
      case (Cons y ys)
      then have "\<not> is_space y" using d1 by (simp add: not_space_digit)
      then show ?thesis using span_spaces(2) [OF w1, of y "ys @ x"] Cons by simp
    qed
  qed
  show ?thesis
  proof (cases "dot = []")
    case True
    have D: "list_all is_digit (d1 @ d2)" "d1 @ d2 \<noteq> []" using d1 d2 by simp_all
    obtain y ys where yy: "d1 @ d2 = y # ys" using D(2) by (cases "d1 @ d2") auto
    then have y: "\<not> is_space y" using D(1) by (simp add: not_space_digit)
    have e: "(d1 @ d2) @ w2 @ ?c # r = y # ys @ w2 @ ?c # r"
      by (simp only: yy append_Cons)
    have "a @ ?c # r = w1 @ (d1 @ d2) @ w2 @ ?c # r"
      using a True by simp
    then have 1: "dropWhile is_space (a @ ?c # r) = (d1 @ d2) @ w2 @ ?c # r"
      using span_spaces(2) [OF w1 y, of "ys @ w2 @ ?c # r"] by (simp only: e)
    have 2: "takeWhile is_digit ((d1 @ d2) @ w2 @ ?c # r) = d1 @ d2"
      "dropWhile is_digit ((d1 @ d2) @ w2 @ ?c # r) = w2 @ ?c # r"
      using span_digits_spaces [OF D(1) w2 not_digit_punct(2)] by simp_all
    obtain z zs where zz: "w2 @ ?c # r = z # zs" by (cases w2) auto
    then have "z = ?c \<or> is_space z" using w2 by (cases w2) auto
    then have z: "z \<noteq> CHR ''.''" by (auto simp: is_space_def)
    have t: "takeWhile is_digit (dropWhile is_space (a @ ?c # r)) = d1 @ d2"
      by (simp only: 1 2)
    have "dropWhile is_digit (dropWhile is_space (a @ ?c # r)) = w2 @ ?c # r"
      by (simp only: 1 2)
    then have dr: "dropWhile is_digit (dropWhile is_space (a @ ?c # r)) = z # zs"
      by (simp only: zz)
    have "dropWhile is_space (z # zs) = ?c # r"
      using ws by (simp only: zz)
    then show ?thesis
      unfolding alphaGroup_def Let_def t dr
      using z D(2) by simp
  next
    case False
    then have dt: "dot = ''.''" using dot by simp
    have nsd: "\<not> is_space CHR ''.''" by (simp add: is_space_def)
    have 1: "dropWhile is_space (a @ ?c # r) = d1 @ CHR ''.'' # d2 @ w2 @ ?c # r"
    proof (cases d1)
      case Nil
      then show ?thesis
        using span_spaces(2) [OF w1 nsd, of "d2 @ w2 @ ?c # r"] a dt by simp
    next
      case (Cons y ys)
      then have "\<not> is_space y" using d1 by (simp add: not_space_digit)
      then show ?thesis
        using span_spaces(2) [OF w1, of y "ys @ CHR ''.'' # d2 @ w2 @ ?c # r"] Cons a dt by simp
    qed
    have 2: "takeWhile is_digit (d1 @ CHR ''.'' # d2 @ w2 @ ?c # r) = d1"
      "dropWhile is_digit (d1 @ CHR ''.'' # d2 @ w2 @ ?c # r) = CHR ''.'' # d2 @ w2 @ ?c # r"
      using span_digits [OF d1 not_digit_punct(3)] by simp_all
    have 3: "takeWhile is_digit (d2 @ w2 @ ?c # r) = d2"
      "dropWhile is_digit (d2 @ w2 @ ?c # r) = w2 @ ?c # r"
      using span_digits_spaces [OF d2(1) w2 not_digit_punct(2)] by simp_all
    have t: "takeWhile is_digit (dropWhile is_space (a @ ?c # r)) = d1"
      by (simp only: 1 2)
    have dr: "dropWhile is_digit (dropWhile is_space (a @ ?c # r)) = CHR ''.'' # d2 @ w2 @ ?c # r"
      by (simp only: 1 2)
    show ?thesis
      unfolding alphaGroup_def Let_def t dr
      using 3 d2(2) ws by simp
  qed
qed

lemma list_all_takeWhile: "list_all P (takeWhile P xs)"
  by (induction xs) auto

lemma inAlphaI:
  assumes "list_all is_space w1" and "list_all is_digit d1" and "dot = [] \<or> dot = ''.''"
    and "list_all is_digit d2" and "d2 \<noteq> []" and "list_all is_space w2"
  shows "inAlpha (w1 @ d1 @ dot @ d2 @ w2)"
  unfolding inAlpha_def using assms by blast

lemma alphaGroup_sound:
  assumes "alphaGroup s = Some r"
  shows "\<exists>a. s = a @ r \<and> inAlpha a"
proof -
  let ?w1 = "takeWhile is_space s" and ?s1 = "dropWhile is_space s"
  let ?d1 = "takeWhile is_digit ?s1" and ?s2 = "dropWhile is_digit ?s1"
  have s: "s = ?w1 @ ?d1 @ ?s2"
    by simp
  show ?thesis
  proof (cases "\<exists>s3. ?s2 = CHR ''.'' # s3")
    case True
    then obtain s3 where s3: "?s2 = CHR ''.'' # s3" by blast
    let ?d2 = "takeWhile is_digit s3" and ?s4 = "dropWhile is_digit s3"
    let ?w2 = "takeWhile is_space ?s4"
    have "alphaGroup s = (if ?d2 = [] then None else Some (dropWhile is_space ?s4))"
      unfolding alphaGroup_def Let_def s3 by simp
    with assms have ne: "?d2 \<noteq> []" and r: "r = dropWhile is_space ?s4"
      by (simp_all split: if_splits)
    have "s3 = ?d2 @ ?w2 @ r" using r by simp
    then have "CHR ''.'' # s3 = ''.'' @ ?d2 @ ?w2 @ r"
      by simp
    then have "?s2 = ''.'' @ ?d2 @ ?w2 @ r"
      by (simp only: s3)
    then have "?w1 @ ?d1 @ ?s2 = (?w1 @ ?d1 @ ''.'' @ ?d2 @ ?w2) @ r"
      by (simp only: append_assoc)
    then have "s = (?w1 @ ?d1 @ ''.'' @ ?d2 @ ?w2) @ r"
      using s by simp
    moreover have "inAlpha (?w1 @ ?d1 @ ''.'' @ ?d2 @ ?w2)"
      by (rule inAlphaI) (simp_all only: list_all_takeWhile ne not_False_eq_True simp_thms)
    ultimately show ?thesis by blast
  next
    case False
    let ?w2 = "takeWhile is_space ?s2"
    have "alphaGroup s = (if ?d1 = [] then None else Some (dropWhile is_space ?s2))"
    proof (cases ?s2)
      case Nil
      show ?thesis unfolding alphaGroup_def Let_def Nil by simp
    next
      case (Cons c s3)
      with False have "c \<noteq> CHR ''.''" by simp
      then show ?thesis unfolding alphaGroup_def Let_def Cons by simp
    qed
    with assms have ne: "?d1 \<noteq> []" and r: "r = dropWhile is_space ?s2"
      by (simp_all split: if_splits)
    have "?s2 = ?w2 @ r" using r by simp
    then have "?w1 @ ?d1 @ ?s2 = (?w1 @ [] @ [] @ ?d1 @ ?w2) @ r"
      by (simp only: append_assoc append_Nil)
    then have "s = (?w1 @ [] @ [] @ ?d1 @ ?w2) @ r"
      using s by simp
    moreover have "inAlpha (?w1 @ [] @ [] @ ?d1 @ ?w2)"
      by (rule inAlphaI) (simp_all only: list_all_takeWhile ne not_False_eq_True simp_thms list.pred_inject)
    ultimately show ?thesis by blast
  qed
qed


lemma rgba_at_SomeD:
  assumes "rgba_at s = Some (g1, g2, g3)"
  obtains s1 s2 s3 s4 s5 s6 s7 s8 s9 where
    "lit ''rgb'' s = Some s1"
    "lit ''('' (case s1 of c # r \<Rightarrow> if c = CHR ''a'' then r else s1 | [] \<Rightarrow> s1) = Some s2"
    "channel s2 = Some (g1, s3)" "lit '','' s3 = Some s4"
    "channel s4 = Some (g2, s5)" "lit '','' s5 = Some s6"
    "channel s6 = Some (g3, s7)"
    "(case lit '','' s7 of Some a \<Rightarrow> alphaGroup a | None \<Rightarrow> Some s7) = Some s8"
    "lit '')'' s8 = Some s9"
  using assms unfolding rgba_at_def
  by (auto split: Option.bind_splits prod.splits)

lemma rgba_at_sound:
  assumes "rgba_at s = Some (g1, g2, g3)"
  shows "\<exists>post. inRgba s g1 g2 g3 post"
proof -
  from assms obtain s1 s2 s3 s4 s5 s6 s7 s8 s9 where
    1: "lit ''rgb'' s = Some s1" and
    2: "lit ''('' (case s1 of c # r \<Rightarrow> if c = CHR ''a'' then r else s1 | [] \<Rightarrow> s1) = Some s2" and
    3: "channel s2 = Some (g1, s3)" and 4: "lit '','' s3 = Some s4" and
    5: "channel s4 = Some (g2, s5)" and 6: "lit '','' s5 = Some s6" and
    7: "channel s6 = Some (g3, s7)" and
    8: "(case lit '','' s7 of Some a \<Rightarrow> alphaGroup a | None \<Rightarrow> Some s7) = Some s8" and
    9: "lit '')'' s8 = Some s9"
    by (rule rgba_at_SomeD)
  have e1: "s = ''rgb'' @ s1" using 1 by (simp only: lit_iff)
  have "\<exists>opt. s1 = opt @ ''('' @ s2 \<and> (opt = [] \<or> opt = ''a'')"
  proof (cases s1)
    case Nil
    with 2 show ?thesis by (simp add: lit_iff)
  next
    case (Cons c r)
    show ?thesis
    proof (cases "c = CHR ''a''")
      case True
      with 2 Cons have "r = ''('' @ s2" by (simp add: lit_iff)
      with Cons True have "s1 = ''a'' @ ''('' @ s2" by simp
      then show ?thesis by blast
    next
      case False
      with 2 Cons have "s1 = [] @ ''('' @ s2" by (simp add: lit_iff)
      then show ?thesis by blast
    qed
  qed
  then obtain opt where e2: "s1 = opt @ ''('' @ s2" and opt: "opt = [] \<or> opt = ''a''"
    by blast
  have e3: "s2 = g1 @ s3" and g1: "inGroup g1" using channel_sound [OF 3] by simp_all
  have e4: "s3 = '','' @ s4" using 4 by (simp only: lit_iff)
  have e5: "s4 = g2 @ s5" and g2: "inGroup g2" using channel_sound [OF 5] by simp_all
  have e6: "s5 = '','' @ s6" using 6 by (simp only: lit_iff)
  have e7: "s6 = g3 @ s7" and g3: "inGroup g3" using channel_sound [OF 7] by simp_all
  have "\<exists>tail. s7 = tail @ s8 \<and> (tail = [] \<or> (\<exists>a. tail = '','' @ a \<and> inAlpha a))"
  proof (cases "lit '','' s7")
    case None
    with 8 have "s7 = [] @ s8" by simp
    then show ?thesis by blast
  next
    case (Some a')
    with 8 have "alphaGroup a' = Some s8" by simp
    from alphaGroup_sound [OF this] obtain a where a: "a' = a @ s8" "inAlpha a" by blast
    from Some have "s7 = '','' @ a'" by (simp only: lit_iff)
    with a have "s7 = ('','' @ a) @ s8" by simp
    with a(2) show ?thesis by blast
  qed
  then obtain tail where e8: "s7 = tail @ s8"
    and tail: "tail = [] \<or> (\<exists>a. tail = '','' @ a \<and> inAlpha a)"
    by blast
  have e9: "s8 = '')'' @ s9" using 9 by (simp only: lit_iff)
  have "s = ''rgb'' @ opt @ ''('' @ g1 @ '','' @ g2 @ '','' @ g3 @ tail @ '')'' @ s9"
    by (simp only: e1 e2 e3 e4 e5 e6 e7 e8 e9 append_assoc)
  then have "inRgba s g1 g2 g3 s9"
    unfolding inRgba_def using opt g1 g2 g3 tail by blast
  then show ?thesis by blast
qed

lemma rgba_at_complete:
  assumes "inRgba s g1 g2 g3 post"
  shows "rgba_at s = Some (g1, g2, g3)"
proof -
  from assms obtain opt tail where
    s: "s = ''rgb'' @ opt @ ''('' @ g1 @ '','' @ g2 @ '','' @ g3 @ tail @ '')'' @ post"
    and opt: "opt = [] \<or> opt = ''a''" and g: "inGroup g1" "inGroup g2" "inGroup g3"
    and tail: "tail = [] \<or> (\<exists>a. tail = '','' @ a \<and> inAlpha a)"
    unfolding inRgba_def by blast
  let ?r3 = "tail @ '')'' @ post"
  let ?r2 = "g3 @ ?r3"
  let ?r1 = "g2 @ CHR '','' # ?r2"
  let ?r0 = "g1 @ CHR '','' # ?r1"
  have 1: "lit ''rgb'' s = Some (opt @ CHR ''('' # ?r0)"
    by (simp add: lit_iff s)
  have 2: "lit ''('' (case opt @ CHR ''('' # ?r0 of
                        c # r \<Rightarrow> if c = CHR ''a'' then r else opt @ CHR ''('' # ?r0
                      | [] \<Rightarrow> opt @ CHR ''('' # ?r0) = Some ?r0"
    using opt by (auto simp: lit_iff)
  have 3: "channel ?r0 = Some (g1, CHR '','' # ?r1)"
    by (rule channel_complete [OF g(1) not_space_punct(1) not_digit_punct(1)])
  have 4: "\<And>x. lit '','' (CHR '','' # x) = Some x"
    by (simp add: lit_iff)
  have 5: "channel ?r1 = Some (g2, CHR '','' # ?r2)"
    by (rule channel_complete [OF g(2) not_space_punct(1) not_digit_punct(1)])
  have 7: "channel ?r2 = Some (g3, ?r3)"
  proof (cases "tail = []")
    case True
    then show ?thesis
      using channel_complete [OF g(3) not_space_punct(2) not_digit_punct(2), of post] by simp
  next
    case False
    then obtain a where "tail = '','' @ a" using tail by blast
    then show ?thesis
      using channel_complete [OF g(3) not_space_punct(1) not_digit_punct(1), of "a @ '')'' @ post"]
      by simp
  qed
  have 8: "(case lit '','' ?r3 of Some a \<Rightarrow> alphaGroup a | None \<Rightarrow> Some ?r3) = Some ('')'' @ post)"
  proof (cases "tail = []")
    case True
    then show ?thesis by (simp add: lit_def)
  next
    case False
    then obtain a where a: "tail = '','' @ a" "inAlpha a" using tail by blast
    then show ?thesis
      using alphaGroup_complete [OF a(2), of post] by (simp add: lit_def)
  qed
  have 9: "lit '')'' ('')'' @ post) = Some post"
    by (simp add: lit_iff)
  show ?thesis
    unfolding rgba_at_def
    by (simp only: 1 2 3 4 5 7 8 9 Option.bind.simps prod.case)
qed

lemma rgba_at_iff:
  "rgba_at s = Some (g1, g2, g3) \<longleftrightarrow> (\<exists>post. inRgba s g1 g2 g3 post)"
  using rgba_at_sound rgba_at_complete by blast


lemma rgba_exec_None_iff:
  "rgba_exec s = None \<longleftrightarrow> (\<forall>pre rest. s = pre @ rest \<longrightarrow> rgba_at rest = None)"
proof (induction s)
  case Nil
  then show ?case by (simp add: rgba_exec.simps)
next
  case (Cons c cs)
  show ?case
  proof
    assume n: "rgba_exec (c # cs) = None"
    then have h: "rgba_at (c # cs) = None" and t: "rgba_exec cs = None"
      by (auto simp: rgba_exec.simps split: option.splits)
    show "\<forall>pre rest. c # cs = pre @ rest \<longrightarrow> rgba_at rest = None"
    proof (intro allI impI)
      fix pre rest
      assume e: "c # cs = pre @ rest"
      show "rgba_at rest = None"
      proof (cases pre)
        case Nil
        with e h show ?thesis by simp
      next
        case (Cons a pre')
        with e have "cs = pre' @ rest" by simp
        with t Cons.IH show ?thesis by blast
      qed
    qed
  next
    assume a: "\<forall>pre rest. c # cs = pre @ rest \<longrightarrow> rgba_at rest = None"
    have "c # cs = [] @ (c # cs)" by simp
    with a have h: "rgba_at (c # cs) = None" by blast
    have "\<forall>pre rest. cs = pre @ rest \<longrightarrow> rgba_at rest = None"
    proof (intro allI impI)
      fix pre rest
      assume "cs = pre @ rest"
      then have "c # cs = (c # pre) @ rest" by simp
      with a show "rgba_at rest = None" by blast
    qed
    then have "rgba_exec cs = None" using Cons.IH by blast
    with h show "rgba_exec (c # cs) = None" by (simp add: rgba_exec.simps)
  qed
qed

lemma rgba_exec_leftmost:
  assumes "rgba_exec s = Some m"
  shows "\<exists>pre rest. s = pre @ rest \<and> rgba_at rest = Some m
           \<and> (\<forall>pre' rest'. s = pre' @ rest' \<and> length pre' < length pre \<longrightarrow> rgba_at rest' = None)"
  using assms
proof (induction s)
  case Nil
  then have "[] = [] @ [] \<and> rgba_at [] = Some m" by (simp add: rgba_exec.simps)
  then show ?case by fastforce
next
  case (Cons c cs)
  show ?case
  proof (cases "rgba_at (c # cs)")
    case (Some a)
    with Cons.prems have "c # cs = [] @ (c # cs) \<and> rgba_at (c # cs) = Some m"
      by (simp add: rgba_exec.simps)
    then show ?thesis by fastforce
  next
    case None
    with Cons.prems have "rgba_exec cs = Some m" by (simp add: rgba_exec.simps)
    from Cons.IH [OF this] obtain pre rest where pr: "cs = pre @ rest" "rgba_at rest = Some m"
      and left: "\<forall>pre' rest'. cs = pre' @ rest' \<and> length pre' < length pre \<longrightarrow> rgba_at rest' = None"
      by blast
    have "\<forall>pre' rest'. c # cs = pre' @ rest' \<and> length pre' < length (c # pre)
            \<longrightarrow> rgba_at rest' = None"
    proof (intro allI impI)
      fix pre' rest'
      assume a: "c # cs = pre' @ rest' \<and> length pre' < length (c # pre)"
      show "rgba_at rest' = None"
      proof (cases pre')
        case Nil
        with a None show ?thesis by simp
      next
        case (Cons x xs)
        with a have "cs = xs @ rest' \<and> length xs < length pre" by simp
        with left show ?thesis by blast
      qed
    qed
    moreover have "c # cs = (c # pre) @ rest" using pr(1) by simp
    ultimately show ?thesis using pr(2) by blast
  qed
qed

text \<open>
  The pattern reads back what a template literal prints: the colour
  \<^verbatim>\<open>rgba(r,g,b,i.f)\<close> with decimal numerals parses to the channels \<open>r\<close>, \<open>g\<close>, \<open>b\<close>.
\<close>

lemma is_digit_digit_char: "d < 10 \<Longrightarrow> is_digit (digit_char d)"
  using nth_mem [of d "''0123456789''"] by (simp add: is_digit_def digit_char_def)

lemma digit_val_digit_char:
  assumes "d < 10"
  shows "digit_val (digit_char d) = d"
proof -
  have "d = 0 \<or> d = 1 \<or> d = 2 \<or> d = 3 \<or> d = 4 \<or> d = 5 \<or> d = 6 \<or> d = 7
    \<or> d = 8 \<or> d = 9"
    using assms by arith
  then show ?thesis
    by (elim disjE) (simp_all add: digit_val_def digit_char_def)
qed

lemma show_nat_digits: "list_all is_digit (show_nat n)"
proof (induction n rule: show_nat.induct)
  case (1 n)
  show ?case
  proof (cases "n < 10")
    case True
    then show ?thesis by (subst show_nat.simps) (simp add: is_digit_digit_char)
  next
    case False
    then show ?thesis
      using 1 by (subst show_nat.simps) (simp add: is_digit_digit_char)
  qed
qed

lemma show_nat_nonempty: "show_nat n \<noteq> []"
  by (subst show_nat.simps) simp

lemma dec_value_snoc: "dec_value (xs @ [c]) = 10 * dec_value xs + digit_val c"
  by (simp add: dec_value_def)

lemma dec_value_show_nat: "dec_value (show_nat n) = n"
proof (induction n rule: show_nat.induct)
  case (1 n)
  show ?case
  proof (cases "n < 10")
    case True
    then show ?thesis
      by (subst show_nat.simps) (simp add: dec_value_def digit_val_digit_char)
  next
    case False
    then have "dec_value (show_nat (n div 10)) = n div 10" using 1 by simp
    with False show ?thesis
      by (subst show_nat.simps) (simp add: dec_value_snoc digit_val_digit_char)
  qed
qed

lemma parseInt10_show_nat: "parseInt10 (show_nat n) = number_of_nat n"
  using parseInt10_padded [of "[]" "show_nat n" "[]"]
  by (simp add: show_nat_digits show_nat_nonempty dec_value_show_nat)

text \<open>A digit one followed by 309 zeros reads as \<^verbatim>\<open>Infinity\<close>.\<close>

lemma dec_value_zeros: "dec_value (ds @ replicate k CHR ''0'') = dec_value ds * 10 ^ k"
proof (induction k)
  case 0
  then show ?case by simp
next
  case (Suc k)
  have "ds @ replicate (Suc k) CHR ''0'' = (ds @ replicate k CHR ''0'') @ [CHR ''0'']"
    by (simp add: replicate_append_same)
  then show ?case
    by (simp only: dec_value_snoc Suc.IH) (simp add: digit_val_def)
qed

lemma is_digit_zero_one: "is_digit CHR ''0''" "is_digit CHR ''1''"
  by (simp_all add: is_digit_def)

lemma parseInt10_overflow: "parseInt10 (CHR ''1'' # replicate 309 CHR ''0'') = PosInf"
proof -
  have d: "list_all is_digit (CHR ''1'' # replicate 309 CHR ''0'')"
    by (simp add: is_digit_zero_one list_all_iff)
  have "dec_value ([CHR ''1''] @ replicate 309 CHR ''0'') = dec_value [CHR ''1''] * 10 ^ 309"
    by (rule dec_value_zeros)
  then have v: "dec_value (CHR ''1'' # replicate 309 CHR ''0'') = 10 ^ 309"
    by (simp add: dec_value_def digit_val_def)
  have "(2::nat) ^ 1024 \<le> 10 ^ 309" by simp
  then have n: "number_of_nat (10 ^ 309) = PosInf" by (rule number_of_nat_overflow)
  have "parseInt10 ([] @ (CHR ''1'' # replicate 309 CHR ''0'') @ [])
          = number_of_nat (dec_value (CHR ''1'' # replicate 309 CHR ''0''))"
    using d by (intro parseInt10_padded) simp_all
  then show ?thesis
    by (simp only: append_Nil append_Nil2 v n)
qed

lemma channel_digits:
  assumes "list_all is_digit ds" and "ds \<noteq> []" and "\<not> is_digit c" and "\<not> is_space c"
  shows "channel (ds @ c # r) = Some (ds, c # r)"
  using assms
  by (simp add: channel_def Let_def no_leading_space span_digits)

lemma alphaGroup_decimal:
  assumes "list_all is_digit ds" and "ds \<noteq> []" and "list_all is_digit fs" and "fs \<noteq> []"
    and "\<not> is_digit c" and "\<not> is_space c"
  shows "alphaGroup (ds @ ''.'' @ fs @ c # r) = Some (c # r)"
proof -
  have 1: "dropWhile is_space (ds @ ''.'' @ fs @ c # r) = ds @ ''.'' @ fs @ c # r"
    using no_leading_space(2) [OF assms(1,2)] by simp
  have 2: "takeWhile is_digit (ds @ ''.'' @ fs @ c # r) = ds"
    "dropWhile is_digit (ds @ ''.'' @ fs @ c # r) = CHR ''.'' # fs @ c # r"
    using span_digits [OF assms(1) not_digit_punct(3), of "fs @ c # r"] by simp_all
  have 3: "takeWhile is_digit (fs @ c # r) = fs" "dropWhile is_digit (fs @ c # r) = c # r"
    using span_digits [OF assms(3,5)] by simp_all
  show ?thesis
    unfolding alphaGroup_def Let_def 1 2 using 3 assms by simp
qed

lemma rgba_at_printed:
  "rgba_at (''rgba('' @ show_nat r @ '','' @ show_nat g @ '','' @ show_nat b @ '',''
             @ show_nat i @ ''.'' @ show_nat f @ '')'' @ post)
     = Some (show_nat r, show_nat g, show_nat b)"
proof -
  note d = show_nat_digits show_nat_nonempty
  have c1: "\<And>n rest. channel (show_nat n @ CHR '','' # rest) = Some (show_nat n, CHR '','' # rest)"
    by (rule channel_digits) (simp_all add: d not_digit_punct not_space_punct)
  have a: "alphaGroup (show_nat i @ ''.'' @ show_nat f @ CHR '')'' # post) = Some (CHR '')'' # post)"
    by (rule alphaGroup_decimal) (simp_all add: d not_digit_punct not_space_punct)
  show ?thesis
    using a by (simp add: rgba_at_def lit_def c1)
qed

lemma rgba_exec_printed:
  "rgba_exec (''rgba('' @ show_nat r @ '','' @ show_nat g @ '','' @ show_nat b @ '',''
             @ show_nat i @ ''.'' @ show_nat f @ '')'')
     = Some (show_nat r, show_nat g, show_nat b)"
  using rgba_at_printed [of r g b i f "[]"] by (simp add: rgba_exec.simps)

subsection \<open>Hover projection\<close>

lemma model_get_pValue: "model_get m ''pValue'' = None"
  by (simp add: model_get_def)

text \<open>
  With a cached Model the handler always produces a hover state, and its value is 0: the
  base read from the Model is \<^verbatim>\<open>undefined\<close>.
\<close>

lemma hover_pct_zero:
  "onMouseMove (Some m) rectLeft clientX hover = Some hv \<Longrightarrow> hover_pct hv = Fin 0"
  by (auto simp: onMouseMove_def Let_def model_get_pValue)

text \<open>The position of the hover state is the projection onto the final line.\<close>

lemma onMouseMove_projection:
  assumes "startX m < endX m"
  shows "onMouseMove (Some m) rectLeft clientX hover =
           Some \<lparr> hover_x = max (startX m) (min (endX m) (clientX - rectLeft)),
                  hover_y = startY m + (yFinal m - startY m)
                    * ((max (startX m) (min (endX m) (clientX - rectLeft)) - startX m)
                       / (endX m - startX m)),
                  hover_pct = Fin 0 \<rparr>"
  using assms by (simp add: onMouseMove_def Let_def model_get_pValue)

text \<open>
  Claim C1 says that the hover value is the base metric times the projected ratio, so
  that a pointer at or beyond \<open>endX\<close> shows the base metric. The handler reads the base
  from \<^verbatim>\<open>m.pValue\<close>, a property the Model never has, and takes 0 instead: for the
  metric 500 a pointer at \<open>endX = 237\<close>, and one far beyond it, give the value 0.
\<close>

theorem C1_hover_value_is_zero:
  "startX (buildModel (noProps\<lparr>percent := Some (Fin 500)\<rparr>) sevenPx 300 100) = 38
   \<and> endX (buildModel (noProps\<lparr>percent := Some (Fin 500)\<rparr>) sevenPx 300 100) = 237
   \<and> onMouseMove (Some (buildModel (noProps\<lparr>percent := Some (Fin 500)\<rparr>) sevenPx 300 100))
        0 237 None
      = Some \<lparr> hover_x = 237, hover_y = 46, hover_pct = Fin 0 \<rparr>
   \<and> onMouseMove (Some (buildModel (noProps\<lparr>percent := Some (Fin 500)\<rparr>) sevenPx 300 100))
        0 1000 None
      = Some \<lparr> hover_x = 237, hover_y = 46, hover_pct = Fin 0 \<rparr>"
  by (simp add: onMouseMove_def model_get_pValue Let_def endX_buildModel startX_buildModel
      startY_buildModel yFinal_buildModel endX_unfloored_500 compact_on_noProps)

subsection \<open>The event loop\<close>

lemma buildModel_width_neq:
  "cssW \<noteq> cssW' \<Longrightarrow>
     buildModel props measureText cssW cssH \<noteq> buildModel props' measureText' cssW' cssH'"
  using width_buildModel by metis

lemma pending_renderOnce:
  "pending (renderOnce measureText env st) =
     pending st @ [(nextHandle st, \<lparr> ch_props = st_props st, ch_inView = st_inView st,
        ch_dpr = min 2 (max 1 (js_floor (if devicePixelRatio env = 0 then 1
                                         else devicePixelRatio env))),
        ch_model = buildModel (st_props st) measureText (max 1 (js_floor (rectWidth env)))
                     (max 1 (js_floor (rectHeight env))),
        ch_start = now env \<rparr>)]"
  by (simp add: renderOnce_def requestFrame_def Let_def)

lemma duration_noProps: "duration (buildModel noProps measureText cssW cssH) = 980"
  by (simp add: duration_buildModel noProps_def)

lemma step_refs:
  "modelRef (step ch ts st) = modelRef st" "canvasSize (step ch ts st) = canvasSize st"
  by (simp_all add: step_def requestFrame_def Let_def)

lemma step_paints:
  "map seen (paints (step ch ts st)) =
     map seen (paints st) @ [(ch_model ch, modelRef st, canvasSize st)]"
  by (simp add: step_def requestFrame_def Let_def seen_def)

lemma foldl_step_paints:
  "map seen (paints (foldl (\<lambda>s e. step (snd e) ts s) st es)) =
     map seen (paints st) @ map (\<lambda>e. (ch_model (snd e), modelRef st, canvasSize st)) es"
proof (induction es arbitrary: st)
  case Nil
  then show ?case by simp
next
  case (Cons e es)
  show ?case
    by (simp add: Cons.IH step_paints step_refs)
qed

lemma frame_paints:
  "map seen (paints (frame ts st)) =
     map seen (paints st) @ map (\<lambda>e. (ch_model (snd e), modelRef st, canvasSize st)) (pending st)"
  using foldl_step_paints [of ts "st\<lparr>pending := []\<rparr>" "pending st"]
  by (simp add: frame_def)

lemma modelRef_renderOnce:
  "modelRef (renderOnce measureText env st) =
     Some (buildModel (st_props st) measureText (max 1 (js_floor (rectWidth env)))
                     (max 1 (js_floor (rectHeight env))))"
  by (simp add: renderOnce_def requestFrame_def Let_def)

lemma paints_renderOnce: "paints (renderOnce measureText env st) = paints st"
  by (simp add: renderOnce_def requestFrame_def Let_def)

text \<open>
  A frame paints every callback that was pending, each against the cached Model and the
  canvas of that frame. So after a resize notification every chain that was pending and
  whose Model differs from the rebuilt one paints stale in the next frame.
\<close>

lemma stale_after_resize:
  assumes "(h, ch) \<in> set (pending st)"
    and "ch_model ch \<noteq> buildModel (st_props st) measureText (max 1 (js_floor (rectWidth env)))
                          (max 1 (js_floor (rectHeight env)))"
  shows "\<exists>p \<in> set (paints (run measureText st [Resize env, Frame ts])).
           paint_model p = ch_model ch \<and> stale p"
proof -
  let ?m = "buildModel (st_props st) measureText (max 1 (js_floor (rectWidth env)))
                          (max 1 (js_floor (rectHeight env)))"
  let ?st1 = "renderOnce measureText env st"
  have r: "run measureText st [Resize env, Frame ts] = frame ts ?st1"
    by (simp add: run_def)
  have "(h, ch) \<in> set (pending ?st1)"
    using assms(1) by (simp add: pending_renderOnce)
  then have "(ch_model ch, Some ?m, canvasSize ?st1)
      \<in> set (map (\<lambda>e. (ch_model (snd e), modelRef ?st1, canvasSize ?st1)) (pending ?st1))"
    by (force simp: modelRef_renderOnce)
  then have "(ch_model ch, Some ?m, canvasSize ?st1) \<in> set (map seen (paints (frame ts ?st1)))"
    by (simp add: frame_paints)
  then obtain p where p: "p \<in> set (paints (frame ts ?st1))"
    and s: "seen p = (ch_model ch, Some ?m, canvasSize ?st1)"
    by auto
  from s have "paint_model p = ch_model ch" "cached_then p = Some ?m"
    by (simp_all add: seen_def)
  then have "paint_model p = ch_model ch \<and> stale p"
    using assms(2) by (auto simp: stale_def)
  with p r show ?thesis by auto
qed

text \<open>The cleanup of the effect does cancel the callback whose handle \<^verbatim>\<open>rafRef\<close> holds.\<close>

lemma effectCleanup_cancels:
  "rafRef st = Some h \<Longrightarrow> h \<noteq> 0 \<Longrightarrow> h \<notin> fst ` set (pending (effectCleanup st))"
  by (auto simp: effectCleanup_def cancelFrame_def)

text \<open>
  Claim C2 says that a Model rebuild cancels the frame-callback chain of the previous
  Model before it schedules a new one, so that no paint draws a Model other than the
  cached one. Only the cleanup of the effect cancels; \<^verbatim>\<open>renderOnce\<close> itself does not,
  and the resize observer calls \<^verbatim>\<open>renderOnce\<close> directly: after a resize every callback
  that was pending is still pending. Mounted in view at width 300, resized to width 600
  and then given one animation frame, the component first paints the Model built for
  width 300 while the cached Model and the canvas are those of width 600.
\<close>

theorem C2_stale_paint_after_resize:
  "pending (handle measureText st (Resize env)) =
     pending st @ [(nextHandle st, \<lparr> ch_props = st_props st, ch_inView = st_inView st,
        ch_dpr = min 2 (max 1 (js_floor (if devicePixelRatio env = 0 then 1
                                         else devicePixelRatio env))),
        ch_model = buildModel (st_props st) measureText (max 1 (js_floor (rectWidth env)))
                     (max 1 (js_floor (rectHeight env))),
        ch_start = now env \<rparr>)]
   \<and> map (width \<circ> paint_model)
        (paints (run sevenPx (initial noProps) [Update noProps True env300, Resize env600, Frame 16]))
     = [300, 600]
   \<and> map cached_then
        (paints (run sevenPx (initial noProps) [Update noProps True env300, Resize env600, Frame 16]))
     = [Some (buildModel noProps sevenPx 600 100), Some (buildModel noProps sevenPx 600 100)]
   \<and> map canvas_then
        (paints (run sevenPx (initial noProps) [Update noProps True env300, Resize env600, Frame 16]))
     = [(600, 100), (600, 100)]
   \<and> map stale
        (paints (run sevenPx (initial noProps) [Update noProps True env300, Resize env600, Frame 16]))
     = [True, False]"
  by (simp add: pending_renderOnce run_def depsChanged_def effectRun_def effectCleanup_def initial_def
      renderOnce_def requestFrame_def frame_def step_def Let_def env300_def env600_def
      js_floor_def stale_def width_buildModel duration_noProps buildModel_width_neq)

subsection \<open>The tip of the painted line\<close>

lemma tipPoint_eq:
  "tipPoint m t =
     (startX m + (endX m - startX m) * ((1 - cos (pi * max 0 (min 1 t))) / 2),
      startY m + (yFinal m - startY m) * ((1 - cos (pi * max 0 (min 1 t))) / 2))"
  by (simp add: tipPoint_def Let_def)

text \<open>The driver: a frame callback paints its Model at the eased time fraction.\<close>

lemma paints_first_frame:
  "pending st = [(h, ch)] \<Longrightarrow>
   paints (frame ts st) = paints st @
     [\<lparr> paint_model = ch_model ch, paint_dpr = ch_dpr ch,
        paint_progress = 1 / 2 * (1 - cos (pi * min 1 (max 0 ((ts - ch_start ch) / duration (ch_model ch))))),
        paint_ops = draw (ch_props ch) (ch_dpr ch) (ch_model ch)
                      (1 / 2 * (1 - cos (pi * min 1 (max 0 ((ts - ch_start ch) / duration (ch_model ch))))))
                      (xLabels (ch_props ch)),
        cached_then = modelRef st, canvas_then = canvasSize st \<rparr>]"
  by (simp add: frame_def step_def requestFrame_def Let_def)

lemma ease_quarter_less: "(1 - sqrt 2 / 2) / 2 < (1 / 4 :: real)"
proof -
  have "1 < sqrt 2" by simp
  then show ?thesis by simp
qed

text \<open>
  Claim C3 says that the paint routine places the tip at the linear blend taken at its
  progress argument, the eased value that the driver supplies, and transforms the
  argument no further. The driver eases the time fraction (line 204) and passes the
  result, and the paint routine applies the same ease to it again (line 131): the tip is
  at the blend for the ease of the eased value. With no props in a wrapper of 300 by 100,
  started at time 0 with the duration 980, the frame at the time stamp 980 / 3 has the
  time fraction 1/3; the driver passes 1/4, and the line is drawn to the blend for
  \<open>(1 - sqrt 2 / 2) / 2\<close>, which is less than 1/4, and not to the blend for 1/4.
\<close>

theorem C3_double_easing:
  "tipPoint m t =
     (startX m + (endX m - startX m) * ((1 - cos (pi * max 0 (min 1 t))) / 2),
      startY m + (yFinal m - startY m) * ((1 - cos (pi * max 0 (min 1 t))) / 2))
   \<and> map paint_progress
        (paints (run sevenPx (initial noProps) [Update noProps True env300, Frame (980 / 3)]))
       = [1 / 4]
   \<and> map paint_ops
        (paints (run sevenPx (initial noProps) [Update noProps True env300, Frame (980 / 3)]))
       = [draw noProps 1 (buildModel noProps sevenPx 300 100) (1 / 4) None]
   \<and> drawLine (buildModel noProps sevenPx 300 100) (1 / 4) =
       [StrokeStyle ''rgba(16,185,129,0.8)'', LineWidth (Fin (14 / 10)), LineCap ''round'',
        BeginPath, MoveTo 38 81,
        LineTo (38 + (237 - 38) * ((1 - sqrt 2 / 2) / 2))
               (81 + (374 / 5 - 81) * ((1 - sqrt 2 / 2) / 2)),
        Stroke]
   \<and> startX (buildModel noProps sevenPx 300 100)
       + (endX (buildModel noProps sevenPx 300 100) - startX (buildModel noProps sevenPx 300 100))
         * (1 / 4) = 38 + (237 - 38) * (1 / 4)
   \<and> startY (buildModel noProps sevenPx 300 100)
       + (yFinal (buildModel noProps sevenPx 300 100) - startY (buildModel noProps sevenPx 300 100))
         * (1 / 4) = 81 + (374 / 5 - 81) * (1 / 4)
   \<and> (1 - sqrt 2 / 2) / 2 < (1 / 4 :: real)
   \<and> tipPoint (buildModel noProps sevenPx 300 100) (1 / 4)
       \<noteq> (startX (buildModel noProps sevenPx 300 100)
            + (endX (buildModel noProps sevenPx 300 100)
               - startX (buildModel noProps sevenPx 300 100)) * (1 / 4),
          startY (buildModel noProps sevenPx 300 100)
            + (yFinal (buildModel noProps sevenPx 300 100)
               - startY (buildModel noProps sevenPx 300 100)) * (1 / 4))"
proof -
  let ?m = "buildModel noProps sevenPx 300 100"
  have f: "startX ?m = 38" "endX ?m = 237" "startY ?m = 81" "yFinal ?m = 374 / 5"
    by (simp_all add: endX_buildModel startX_buildModel startY_buildModel yFinal_buildModel
        endX_unfloored_100 compact_on_noProps percent_noProps)
  have s: "strokeColor ?m = ''rgba(16,185,129,0.8)''" "lineWidth ?m = Fin (14 / 10)"
    by (simp_all add: strokeColor_buildModel lineWidth_buildModel color_def noProps_def
        compact_on_def)
  have c: "cos (pi * max 0 (min 1 (1 / 4))) = sqrt 2 / 2"
    using cos_45 by simp
  have tp: "tipPoint ?m (1 / 4) =
      (38 + (237 - 38) * ((1 - sqrt 2 / 2) / 2), 81 + (374 / 5 - 81) * ((1 - sqrt 2 / 2) / 2))"
    by (simp only: tipPoint_eq c f)
  have st: "run sevenPx (initial noProps) [Update noProps True env300]
      = \<lparr> st_props = noProps, st_inView = True, rafRef = Some 1, modelRef = Some ?m,
          canvasSize = (300, 100),
          pending = [(1, \<lparr> ch_props = noProps, ch_inView = True, ch_dpr = 1, ch_model = ?m,
                            ch_start = 0 \<rparr>)],
          nextHandle = 2, paints = [] \<rparr>"
    by (simp add: run_def depsChanged_def effectRun_def initial_def renderOnce_def
        requestFrame_def Let_def env300_def js_floor_def)
  have r: "run sevenPx (initial noProps) [Update noProps True env300, Frame (980 / 3)]
      = frame (980 / 3) (run sevenPx (initial noProps) [Update noProps True env300])"
    by (simp add: run_def)
  have x: "xLabels noProps = None" by (simp add: noProps_def)
  have p: "paints (run sevenPx (initial noProps) [Update noProps True env300, Frame (980 / 3)])
      = [\<lparr> paint_model = ?m, paint_dpr = 1, paint_progress = 1 / 4,
            paint_ops = draw noProps 1 ?m (1 / 4) None,
            cached_then = Some ?m, canvas_then = (300, 100) \<rparr>]"
    unfolding r st
    by (subst paints_first_frame [where h = 1 and ch = "\<lparr> ch_props = noProps, ch_inView = True,
          ch_dpr = 1, ch_model = ?m, ch_start = 0 \<rparr>"])
       (simp_all add: duration_noProps cos_60 x)
  have ne: "38 + (237 - 38) * ((1 - sqrt 2 / 2) / 2) \<noteq> (38 + (237 - 38) * (1 / 4) :: real)"
    using ease_quarter_less by simp
  have d: "drawLine ?m (1 / 4) =
       [StrokeStyle ''rgba(16,185,129,0.8)'', LineWidth (Fin (14 / 10)), LineCap ''round'',
        BeginPath, MoveTo 38 81,
        LineTo (38 + (237 - 38) * ((1 - sqrt 2 / 2) / 2))
               (81 + (374 / 5 - 81) * ((1 - sqrt 2 / 2) / 2)),
        Stroke]"
    by (simp only: drawLine_def tp f s fst_conv snd_conv)
  have n: "tipPoint ?m (1 / 4)
       \<noteq> (startX ?m + (endX ?m - startX ?m) * (1 / 4),
          startY ?m + (yFinal ?m - startY ?m) * (1 / 4))"
    using ne by (simp only: tp f prod.inject simp_thms) 
  show ?thesis
    using tipPoint_eq [of m t] d n ease_quarter_less
    by (simp only: p f list.map Paint.select_convs simp_thms)
qed

subsection \<open>The numeric knobs\<close>

text \<open>
  Claim C4 says that a non-finite override of \<open>lineWidth\<close>, \<open>glowRadius\<close> or
  \<open>areaAlpha\<close> falls back to the compact-derived default, as \<open>durationMs\<close> does. The
  builder tests these three knobs with \<^verbatim>\<open>typeof x === 'number'\<close> only: every number
  given, finite or not, is stored as the line width and the glow radius, and reaches the
  area alpha through the clamp to [0, 1]. So \<^verbatim>\<open>NaN\<close> and \<^verbatim>\<open>Infinity\<close> are stored as
  line width and glow radius, and as area alpha \<^verbatim>\<open>NaN\<close> stays and \<^verbatim>\<open>Infinity\<close>
  becomes 1, where the defaults are 1.4, 10 and 0.12; a \<^verbatim>\<open>NaN\<close> duration gives the
  default 980.
\<close>

theorem C4_nonfinite_override_kept:
  "lineWidth (buildModel (props\<lparr>lineWidthOverride := Some v\<rparr>) measureText cssW cssH) = v
   \<and> glowRadius (buildModel (props\<lparr>glowRadiusOverride := Some v\<rparr>) measureText cssW cssH) = v
   \<and> tpl_alpha (areaStartColor
         (buildModel (props\<lparr>areaAlphaOverride := Some v\<rparr>) measureText cssW cssH))
       = js_max (Fin 0) (js_min (Fin 1) v)
   \<and> lineWidth (buildModel (noProps\<lparr>lineWidthOverride := Some NaN\<rparr>) sevenPx 300 100) = NaN
   \<and> lineWidth (buildModel (noProps\<lparr>lineWidthOverride := Some PosInf\<rparr>) sevenPx 300 100) = PosInf
   \<and> glowRadius (buildModel (noProps\<lparr>glowRadiusOverride := Some NaN\<rparr>) sevenPx 300 100) = NaN
   \<and> glowRadius (buildModel (noProps\<lparr>glowRadiusOverride := Some PosInf\<rparr>) sevenPx 300 100) = PosInf
   \<and> tpl_alpha (areaStartColor (buildModel (noProps\<lparr>areaAlphaOverride := Some NaN\<rparr>) sevenPx 300 100)) = NaN
   \<and> tpl_alpha (areaStartColor (buildModel (noProps\<lparr>areaAlphaOverride := Some PosInf\<rparr>) sevenPx 300 100)) = Fin 1
   \<and> lineWidth (buildModel noProps sevenPx 300 100) = Fin (14 / 10)
   \<and> glowRadius (buildModel noProps sevenPx 300 100) = Fin 10
   \<and> tpl_alpha (areaStartColor (buildModel noProps sevenPx 300 100)) = Fin (12 / 100)
   \<and> duration (buildModel (noProps\<lparr>durationMs := Some NaN\<rparr>) sevenPx 300 100) = 980"
  by (simp add: lineWidth_buildModel glowRadius_buildModel areaAlpha_buildModel
      duration_buildModel noProps_def compact_on_def)

subsection \<open>Colours\<close>

text \<open>
  The channels of the area colours are natural numbers or \<^verbatim>\<open>Infinity\<close>, never \<^verbatim>\<open>NaN\<close>; a
  colour printed as \<^verbatim>\<open>rgba(r,g,b,i.f)\<close> with channels below \<open>2 ^ 53\<close> gives the channels
  \<open>r\<close>, \<open>g\<close>, \<open>b\<close>, and a channel of 310 digits gives \<^verbatim>\<open>Infinity\<close>.
\<close>

lemma areaRgb_range:
  "\<exists>c1 c2 c3. tpl_rgb (areaStartColor (buildModel props measureText cssW cssH)) = (c1, c2, c3)
     \<and> ((\<exists>n. c1 = Fin (real n)) \<or> c1 = PosInf)
     \<and> ((\<exists>n. c2 = Fin (real n)) \<or> c2 = PosInf)
     \<and> ((\<exists>n. c3 = Fin (real n)) \<or> c3 = PosInf)"
proof (cases "rgba_exec (color props)")
  case None
  have "Fin 16 = Fin (real 16)" "Fin 185 = Fin (real 185)" "Fin 129 = Fin (real 129)"
    by simp_all
  then show ?thesis
    unfolding areaStartRgb_buildModel None option.case by blast
next
  case (Some m)
  obtain g1 g2 g3 where m: "m = (g1, g2, g3)" by (cases m) auto
  from rgba_exec_numbers [OF Some [unfolded m]] obtain n1 n2 n3 where
    "parseInt10 g1 = number_of_nat n1" "parseInt10 g2 = number_of_nat n2"
    "parseInt10 g3 = number_of_nat n3"
    by blast
  then show ?thesis
    unfolding areaStartRgb_buildModel Some m option.case prod.case
    using number_of_nat_cases [of n1] number_of_nat_cases [of n2] number_of_nat_cases [of n3]
    by simp
qed

lemma areaRgb_printed:
  assumes "r < 2 ^ 53" and "g < 2 ^ 53" and "b < 2 ^ 53"
  shows "tpl_rgb (areaStartColor (buildModel
           (props\<lparr>colorP := Some (''rgba('' @ show_nat r @ '','' @ show_nat g @ '','' @ show_nat b
                                    @ '','' @ show_nat i @ ''.'' @ show_nat f @ '')'')\<rparr>)
           measureText cssW cssH)) = (Fin (real r), Fin (real g), Fin (real b))"
  by (simp only: areaStartRgb_buildModel color_Some rgba_exec_printed option.case prod.case
      parseInt10_show_nat number_of_nat_exact [OF assms(1)] number_of_nat_exact [OF assms(2)]
      number_of_nat_exact [OF assms(3)])

lemma rgba_exec_long_channel:
  "rgba_exec (''rgb(1'' @ replicate 309 CHR ''0'' @ '',0,0)'')
     = Some (CHR ''1'' # replicate 309 CHR ''0'', ''0'', ''0'')"
proof -
  have g1: "inGroup (CHR ''1'' # replicate 309 CHR ''0'')"
    unfolding inGroup_def
    by (intro exI [of _ "[]"] exI [of _ "CHR ''1'' # replicate 309 CHR ''0''"])
       (simp add: is_digit_zero_one list_all_iff)
  have g0: "inGroup ''0''"
    unfolding inGroup_def
    by (intro exI [of _ "[]"] exI [of _ "''0''"]) (simp add: is_digit_zero_one)
  have "inRgba (''rgb(1'' @ replicate 309 CHR ''0'' @ '',0,0)'')
          (CHR ''1'' # replicate 309 CHR ''0'') ''0'' ''0'' []"
    unfolding inRgba_def using g1 g0
    by (intro exI [of _ "[]"]) simp
  then have "rgba_at (''rgb(1'' @ replicate 309 CHR ''0'' @ '',0,0)'')
               = Some (CHR ''1'' # replicate 309 CHR ''0'', ''0'', ''0'')"
    by (rule rgba_at_complete)
  then show ?thesis by (simp add: rgba_exec.simps)
qed

lemma parseInt10_zero: "parseInt10 ''0'' = Fin 0"
proof -
  have "parseInt10 ([] @ ''0'' @ []) = number_of_nat (dec_value ''0'')"
    by (rule parseInt10_padded) (simp_all add: is_digit_def)
  moreover have "dec_value ''0'' = 0"
    by (simp add: dec_value_def digit_val_def)
  moreover have "number_of_nat 0 = Fin (real (0::nat))"
    by (rule number_of_nat_exact) simp
  ultimately show ?thesis by simp
qed

lemma areaRgb_long_channel:
  "tpl_rgb (areaStartColor (buildModel
     (noProps\<lparr>colorP := Some (''rgb(1'' @ replicate 309 CHR ''0'' @ '',0,0)'')\<rparr>) sevenPx 300 100))
     = (PosInf, Fin 0, Fin 0)"
  by (simp only: areaStartRgb_buildModel color_Some rgba_exec_long_channel option.case prod.case
      parseInt10_overflow parseInt10_zero)

text \<open>
  Claim C5, amended. For every colour string, the channels of the area colours are what
  \<^verbatim>\<open>parseInt\<close> reads from groups 1 to 3 of the leftmost match of the rgba pattern, and
  (16, 185, 129) when the pattern has no match. The glow colour is the red variant exactly
  when the string contains the red signature (\<^verbatim>\<open>239,\<close> white space, \<^verbatim>\<open>68,\<close> white space,
  \<^verbatim>\<open>68\<close>) somewhere, and the green variant otherwise, whether or not the rgba pattern
  matches.
\<close>

theorem C5_color_handling:
  "tpl_rgb (areaStartColor (buildModel props measureText cssW cssH)) =
     (case rgba_exec (color props) of
        None \<Rightarrow> (Fin 16, Fin 185, Fin 129)
      | Some (g1, g2, g3) \<Rightarrow> (parseInt10 g1, parseInt10 g2, parseInt10 g3))
   \<and> tpl_rgb (areaEndColor (buildModel props measureText cssW cssH)) =
       tpl_rgb (areaStartColor (buildModel props measureText cssW cssH))
   \<and> tipGlowColor (buildModel props measureText cssW cssH) =
       (if redSig_test (color props) then ''rgba(239,68,68,0.9)'' else ''rgba(16,185,129,0.9)'')
   \<and> (redSig_test (color props) \<longleftrightarrow>
        (\<exists>pre w1 w2 post. color props = pre @ ''239,'' @ w1 @ ''68,'' @ w2 @ ''68'' @ post
           \<and> list_all is_space w1 \<and> list_all is_space w2))"
  using redSig_test_contains [of "color props"]
  by (simp only: areaStartRgb_buildModel areaEndRgb_buildModel tipGlowColor_buildModel simp_thms)

lemma rgba_exec_red_spaced:
  "rgba_exec ''rgba(239, 68, 68, 0.9)'' = Some (''239'', '' 68'', '' 68'')"
  by code_simp

lemma parseInt10_red_spaced:
  "parseInt10 ''239'' = Fin 239" "parseInt10 '' 68'' = Fin 68"
proof -
  have "parseInt10 ([] @ ''239'' @ []) = number_of_nat (dec_value ''239'')"
    by (rule parseInt10_padded) (simp_all add: is_digit_def)
  moreover have "dec_value ''239'' = 239"
    by (simp add: dec_value_def digit_val_def)
  moreover have "number_of_nat 239 = Fin (real (239::nat))"
    by (rule number_of_nat_exact) simp
  ultimately show "parseInt10 ''239'' = Fin 239" by simp
  have "parseInt10 ('' '' @ ''68'' @ []) = number_of_nat (dec_value ''68'')"
    by (rule parseInt10_padded) (simp_all add: is_digit_def is_space_def)
  moreover have "dec_value ''68'' = 68"
    by (simp add: dec_value_def digit_val_def)
  moreover have "number_of_nat 68 = Fin (real (68::nat))"
    by (rule number_of_nat_exact) simp
  ultimately show "parseInt10 '' 68'' = Fin 68" by simp
qed

lemma redSig_test_red_spaced: "redSig_test ''rgba(239, 68, 68, 0.9)''"
  by code_simp

theorem C5_color_handling_witness:
  "tpl_rgb (areaStartColor (buildModel (noProps\<lparr>colorP := Some ''rgba(239, 68, 68, 0.9)''\<rparr>) sevenPx 300 100))
     = (Fin 239, Fin 68, Fin 68)
   \<and> tipGlowColor (buildModel (noProps\<lparr>colorP := Some ''rgba(239, 68, 68, 0.9)''\<rparr>) sevenPx 300 100)
     = ''rgba(239,68,68,0.9)''
   \<and> (\<exists>pre w1 w2 post. ''rgba(239, 68, 68, 0.9)'' = pre @ ''239,'' @ w1 @ ''68,'' @ w2 @ ''68'' @ post
           \<and> list_all is_space w1 \<and> list_all is_space w2)"
  using C5_color_handling [of "noProps\<lparr>colorP := Some ''rgba(239, 68, 68, 0.9)''\<rparr>" sevenPx 300 100]
  by (simp only: color_Some rgba_exec_red_spaced parseInt10_red_spaced redSig_test_red_spaced
      option.case prod.case if_True simp_thms)

lemma rgba_exec_percent_alpha: "rgba_exec ''rgba(239,68,68,90%)'' = None"
  by code_simp

lemma redSig_test_percent_alpha: "redSig_test ''rgba(239,68,68,90%)''"
  by code_simp

text \<open>
  Claim C5 at the colour \<^verbatim>\<open>rgba(239,68,68,90%)\<close>: the rgba pattern has no match, the
  area colours fall back to (16, 185, 129), and the glow is the red variant.
\<close>

theorem C5_unparseable_red_glow_counterexample:
  "rgba_exec (color (noProps\<lparr>colorP := Some ''rgba(239,68,68,90%)''\<rparr>)) = None
   \<and> tpl_rgb (areaStartColor (buildModel (noProps\<lparr>colorP := Some ''rgba(239,68,68,90%)''\<rparr>) sevenPx 300 100))
     = (Fin 16, Fin 185, Fin 129)
   \<and> tipGlowColor (buildModel (noProps\<lparr>colorP := Some ''rgba(239,68,68,90%)''\<rparr>) sevenPx 300 100)
     = ''rgba(239,68,68,0.9)''
   \<and> tipGlowColor (buildModel (noProps\<lparr>colorP := Some ''rgba(239,68,68,90%)''\<rparr>) sevenPx 300 100)
     \<noteq> ''rgba(16,185,129,0.9)''"
  by (simp add: areaStartRgb_buildModel tipGlowColor_buildModel color_Some
      rgba_exec_percent_alpha redSig_test_percent_alpha)

subsection \<open>The vertical mapping\<close>

text \<open>
  Claim C6. For every metric input (a finite number, \<^verbatim>\<open>NaN\<close>, an infinity, or absent)
  and every size, the builder uses 100 for an absent or non-finite input, clamps to
  [0, 1000], and sets \<open>yFinal = padTop + (1 - p / 1000) * max 1 (height - padTop - padBottom)\<close>
  for the clamped metric \<open>p\<close>.
\<close>

theorem C6_vertical_mapping:
  "yFinal (buildModel props measureText cssW cssH) =
     padTop (buildModel props measureText cssW cssH)
     + (1 - spec_metric (percent props) / 1000)
       * max 1 (height (buildModel props measureText cssW cssH)
                - padTop (buildModel props measureText cssW cssH)
                - padBottom (buildModel props measureText cssW cssH))
   \<and> height (buildModel props measureText cssW cssH) = cssH
   \<and> 0 \<le> spec_metric (percent props) \<and> spec_metric (percent props) \<le> 1000
   \<and> spec_metric (Some (Fin r)) = max 0 (min 1000 r)
   \<and> spec_metric None = 100 \<and> spec_metric (Some NaN) = 100
   \<and> spec_metric (Some PosInf) = 100 \<and> spec_metric (Some NegInf) = 100"
  by (simp add: yFinal_buildModel padTop_buildModel padBottom_buildModel height_buildModel
      spec_metric_range)

subsection \<open>Duration\<close>


subsection \<open>Monotonicity\<close>

lemma yFinal_antimono:
  assumes "spec_metric v1 \<le> spec_metric v2"
  shows "yFinal (buildModel (props\<lparr>percent := v2\<rparr>) measureText cssW cssH)
         \<le> yFinal (buildModel (props\<lparr>percent := v1\<rparr>) measureText cssW cssH)"
proof -
  define H :: real where
    "H = max 1 (cssH - (if compact_on props then 6 else 10) - (if compact_on props then 14 else 18))"
  have H: "0 \<le> H" by (simp add: H_def)
  have "(1 - spec_metric v2 / 1000) * H \<le> (1 - spec_metric v1 / 1000) * H"
    using assms H by (intro mult_right_mono) simp_all
  then show ?thesis
    by (simp add: yFinal_buildModel compact_on_def H_def)
qed

text \<open>
  Claim C8. For a fixed size and style configuration and any \<open>p1 < p2\<close> in [0, 1000], the
  Model built for \<open>p2\<close> has a \<open>yFinal\<close> less than or equal to that of the Model built
  for \<open>p1\<close>; the metric 100 gives a larger \<open>yFinal\<close> than the metric 900.
\<close>

theorem C8_yFinal_monotone:
  assumes "0 \<le> p1" and "p1 < p2" and "p2 \<le> 1000"
  shows "yFinal (buildModel (props\<lparr>percent := Some (Fin p2)\<rparr>) measureText cssW cssH)
           \<le> yFinal (buildModel (props\<lparr>percent := Some (Fin p1)\<rparr>) measureText cssW cssH)
         \<and> yFinal (buildModel (props\<lparr>percent := Some (Fin 900)\<rparr>) measureText cssW cssH)
           < yFinal (buildModel (props\<lparr>percent := Some (Fin 100)\<rparr>) measureText cssW cssH)"
proof
  have "spec_metric (Some (Fin p1)) \<le> spec_metric (Some (Fin p2))"
    using assms by simp
  then show "yFinal (buildModel (props\<lparr>percent := Some (Fin p2)\<rparr>) measureText cssW cssH)
           \<le> yFinal (buildModel (props\<lparr>percent := Some (Fin p1)\<rparr>) measureText cssW cssH)"
    by (rule yFinal_antimono)
next
  define H :: real where
    "H = max 1 (cssH - (if compact_on props then 6 else 10) - (if compact_on props then 14 else 18))"
  have H: "0 < H" by (simp add: H_def max_def)
  have "(1 - 900 / 1000) * H < (1 - 100 / 1000) * H"
    using H by simp
  then show "yFinal (buildModel (props\<lparr>percent := Some (Fin 900)\<rparr>) measureText cssW cssH)
           < yFinal (buildModel (props\<lparr>percent := Some (Fin 100)\<rparr>) measureText cssW cssH)"
    by (simp add: yFinal_buildModel compact_on_def H_def)
qed

theorem C8_yFinal_monotone_witness:
  "(0::real) \<le> 100 \<and> (100::real) < 900 \<and> (900::real) \<le> 1000
   \<and> yFinal (buildModel (noProps\<lparr>percent := Some (Fin 900)\<rparr>) sevenPx 300 100)
     \<le> yFinal (buildModel (noProps\<lparr>percent := Some (Fin 100)\<rparr>) sevenPx 300 100)
   \<and> yFinal (buildModel (noProps\<lparr>percent := Some (Fin 100)\<rparr>) sevenPx 300 100) = 74.8
   \<and> yFinal (buildModel (noProps\<lparr>percent := Some (Fin 900)\<rparr>) sevenPx 300 100) = 17.2"
  using C8_yFinal_monotone [of 100 900 noProps sevenPx 300 100]
  by (simp add: yFinal_buildModel compact_on_noProps)

subsection \<open>A change of width\<close>

text \<open>
  Claim C9. With props, text measure and height fixed, and \<open>endX\<close> not floored at
  \<open>startX\<close> at either width, the Model rebuilt at width 600 has an \<open>endX\<close> exactly 300
  larger than the Model built at width 300, and the same \<open>startX\<close>, \<open>startY\<close> and
  \<open>yFinal\<close>.
\<close>

theorem C9_width_only_frame:
  assumes "startX (buildModel props measureText 300 cssH) \<le> endX_unfloored props measureText 300 cssH"
    and "startX (buildModel props measureText 600 cssH) \<le> endX_unfloored props measureText 600 cssH"
  shows "endX (buildModel props measureText 600 cssH) = endX (buildModel props measureText 300 cssH) + 300
       \<and> startX (buildModel props measureText 600 cssH) = startX (buildModel props measureText 300 cssH)
       \<and> startY (buildModel props measureText 600 cssH) = startY (buildModel props measureText 300 cssH)
       \<and> yFinal (buildModel props measureText 600 cssH) = yFinal (buildModel props measureText 300 cssH)"
proof -
  have g: "endX_unfloored props measureText 600 cssH = endX_unfloored props measureText 300 cssH + 300"
    by (simp only: endX_unfloored_def buildModel_def Let_def Model.select_convs; simp)
  have "endX (buildModel props measureText 600 cssH) = endX_unfloored props measureText 600 cssH"
    using assms(2) by (simp add: endX_buildModel max_def)
  moreover have "endX (buildModel props measureText 300 cssH) = endX_unfloored props measureText 300 cssH"
    using assms(1) by (simp add: endX_buildModel max_def)
  ultimately show ?thesis
    using g by (simp add: startX_buildModel startY_buildModel yFinal_buildModel)
qed

theorem C9_width_only_frame_witness:
  "startX (buildModel noProps sevenPx 300 100) \<le> endX_unfloored noProps sevenPx 300 100
   \<and> startX (buildModel noProps sevenPx 600 100) \<le> endX_unfloored noProps sevenPx 600 100
   \<and> endX (buildModel noProps sevenPx 300 100) = 237
   \<and> endX (buildModel noProps sevenPx 600 100) = 537
   \<and> startX (buildModel noProps sevenPx 600 100) = 38
   \<and> startX (buildModel noProps sevenPx 300 100) = 38"
proof -
  have s: "startX (buildModel noProps sevenPx 300 100) = 38"
     "startX (buildModel noProps sevenPx 600 100) = 38"
    by (simp_all add: startX_buildModel compact_on_noProps)
  have h1: "startX (buildModel noProps sevenPx 300 100) \<le> endX_unfloored noProps sevenPx 300 100"
    by (simp add: endX_unfloored_100 s)
  have h2: "startX (buildModel noProps sevenPx 600 100) \<le> endX_unfloored noProps sevenPx 600 100"
    by (simp add: endX_unfloored_100_wide s)
  show ?thesis
    using C9_width_only_frame [OF h1 h2] h1 h2 endX_unfloored_100 endX_unfloored_100_wide s
    by (simp add: endX_buildModel)
qed

subsection \<open>The stroke colour\<close>

lemma rgba_exec_tomato: "rgba_exec ''tomato'' = None"
  by code_simp

text \<open>
  Claim C10. For every colour string, parseable or not, the \<open>strokeColor\<close> of the Model
  is the input string itself (the default \<^verbatim>\<open>rgba(16,185,129,0.8)\<close> for an absent prop),
  and the paint routine assigns it as the stroke style of the line. The fallback triplet
  (16, 185, 129) reaches the area colours only: for the unparseable \<^verbatim>\<open>tomato\<close> the
  stroke is \<^verbatim>\<open>tomato\<close> and the area colours have the fallback channels.
\<close>

theorem C10_stroke_verbatim:
  "strokeColor (buildModel (props\<lparr>colorP := Some c\<rparr>) measureText cssW cssH) = c
   \<and> strokeColor (buildModel (props\<lparr>colorP := None\<rparr>) measureText cssW cssH) = ''rgba(16,185,129,0.8)''
   \<and> strokeColor (buildModel props measureText cssW cssH) = color props
   \<and> drawLine (buildModel props measureText cssW cssH) t =
       [StrokeStyle (color props), LineWidth (lineWidth (buildModel props measureText cssW cssH)),
        LineCap ''round'', BeginPath,
        MoveTo (startX (buildModel props measureText cssW cssH))
               (startY (buildModel props measureText cssW cssH)),
        LineTo (fst (tipPoint (buildModel props measureText cssW cssH) t))
               (snd (tipPoint (buildModel props measureText cssW cssH) t)),
        Stroke]
   \<and> StrokeStyle (color props) \<in> set (draw props dpr (buildModel props measureText cssW cssH) t labels)
   \<and> rgba_exec ''tomato'' = None
   \<and> strokeColor (buildModel (noProps\<lparr>colorP := Some ''tomato''\<rparr>) sevenPx 300 100) = ''tomato''
   \<and> tpl_rgb (areaStartColor (buildModel (noProps\<lparr>colorP := Some ''tomato''\<rparr>) sevenPx 300 100))
       = (Fin 16, Fin 185, Fin 129)
   \<and> tpl_rgb (areaEndColor (buildModel (noProps\<lparr>colorP := Some ''tomato''\<rparr>) sevenPx 300 100))
       = (Fin 16, Fin 185, Fin 129)"
  by (simp add: strokeColor_buildModel color_Some color_None drawLine_def draw_def
      areaStartRgb_buildModel areaEndRgb_buildModel rgba_exec_tomato)

end
